theory Spec2Isabelle
  imports Complex_Main "HOL-Library.Log_Nat"
begin

section \<open>Data model of the vehicle map component\<close>

text \<open>
  The component \<open>VehicleMap\<close> of \<open>src/VehicleMap.jsx\<close>. JavaScript numbers are
  modelled as real numbers with exact arithmetic and a single zero, except for the
  heading, which is computed on JavaScript numbers with both zeros, the infinities and
  NaN, and in the section on binary64 evaluation. A waypoint is the object built by
  \<open>fetchRouteData\<close>: \<open>{ lat, lng, timestamp }\<close>.
\<close>

record waypoint =
  lat :: real
  lng :: real
  timestamp :: int

text \<open>
  The state variable \<open>interpolatedPos\<close> holds either an object \<open>{ lat, lng }\<close>
  (initial value, tick callback, reset) or a two-element array (load effect).
\<close>

datatype position = PosRecord real real | PosArray real real

text \<open>
  The closure of one armed \<open>setInterval\<close>: the captured \<open>start\<close> and \<open>end\<close>
  waypoints and the mutable local \<open>step\<close>.
\<close>

record interval =
  seg_start :: waypoint
  seg_end :: waypoint
  step :: nat

text \<open>
  The component state: the four \<open>useState\<close> cells, the armed interval (if any), and
  whether the single-shot load effect is still waiting for \<open>fetchRouteData\<close>. The
  rotation angle of the marker is written by the rotation effect and read by nothing
  in the component; it is tracked beside the state, see \<open>rotation_commit\<close>.
\<close>

record state =
  routeData :: "waypoint list"
  currentIndex :: nat
  interpolatedPos :: position
  isPlaying :: bool
  intervalRef :: "interval option"
  loadPending :: bool

definition INITIAL_CENTER :: "real \<times> real" where
  "INITIAL_CENTER = (17.4, 78.495)"

definition steps :: nat where
  "steps = 20"

definition init :: state where
  "init = \<lparr> routeData = [], currentIndex = 0,
            interpolatedPos = PosRecord (fst INITIAL_CENTER) (snd INITIAL_CENTER),
            isPlaying = False, intervalRef = None, loadPending = True \<rparr>"

section \<open>Route source\<close>

text \<open>
  \<open>fetchRouteData\<close>, lines 19 to 41. The outcome of the primary fetch: \<open>fetch\<close> may reject, \<open>response.json()\<close> may
  throw, the parsed value may have no \<open>map\<close> method, or it is an array whose elements
  are objects with numeric fields or \<open>null\<close> (reading a property of \<open>null\<close> throws).
\<close>

datatype raw_point = RawNull | RawPoint real real int

datatype fetch_result =
    FetchRejected
  | BodyNotJson
  | JsonNotArray
  | JsonArray "raw_point list"

definition encoded :: string where
  "encoded = ''svu_GotssPp@`@n@r@rAjA`@f@x@r@l@`@f@pA`A`@l@p@v@f@v@p@r@x@b@dA|@`@l@j@''"

text \<open>
  The catch branch. \<open>polyline.decode\<close> is a parameter \<open>decode\<close>; \<open>Date.now()\<close> is
  called once per decoded point, so the clock is a sequence of readings.
\<close>

definition fallback :: "(string \<Rightarrow> (real \<times> real) list) \<Rightarrow> (nat \<Rightarrow> int) \<Rightarrow> waypoint list" where
  "fallback decode clock =
     map (\<lambda>(i, (la, lo)). \<lparr> lat = la, lng = lo, timestamp = clock i \<rparr>)
         (enumerate 0 (decode encoded))"

text \<open>
  The callback of \<open>data.map\<close>; \<open>None\<close> is the TypeError thrown on a \<open>null\<close>
  element, which the \<open>try\<close> block turns into the fallback.
\<close>

fun to_waypoint :: "raw_point \<Rightarrow> waypoint option" where
  "to_waypoint RawNull = None"
| "to_waypoint (RawPoint la lo ts) = Some \<lparr> lat = la, lng = lo, timestamp = ts \<rparr>"

definition fetchRouteData ::
  "(string \<Rightarrow> (real \<times> real) list) \<Rightarrow> (nat \<Rightarrow> int) \<Rightarrow> fetch_result \<Rightarrow> waypoint list" where
  "fetchRouteData decode clock res =
     (case res of
        JsonArray ps \<Rightarrow>
          (case those (map to_waypoint ps) of
             Some ws \<Rightarrow> ws
           | None \<Rightarrow> fallback decode clock)
      | _ \<Rightarrow> fallback decode clock)"

section \<open>Interpolation and heading\<close>

text \<open>
  The position computed by the interval callback at \<open>step = k\<close> (lines 90 to 92):
  \<open>start.lat + ((end.lat - start.lat) * step) / steps\<close>, same for \<open>lng\<close>.
\<close>

definition interp :: "waypoint \<Rightarrow> waypoint \<Rightarrow> nat \<Rightarrow> position" where
  "interp a b k =
     PosRecord (lat a + ((lat b - lat a) * real k) / real steps)
               (lng a + ((lng b - lng a) * real k) / real steps)"

text \<open>
  The heading reads the coordinates as JavaScript numbers in full: besides the finite
  values there are the negative zero, the two infinities and NaN (\<open>JSON.parse\<close>
  yields \<open>-0\<close> for \<open>-0.0\<close> and \<open>Infinity\<close> for \<open>1e999\<close>). \<open>JsNum 0\<close> is the
  positive zero. Rounding of finite results is not modelled. \<open>js_of\<close> is a waypoint of
  the playback state, which holds finite coordinates, as the heading sees it.
\<close>

datatype jsnum = JsNum real | JsNegZero | JsPosInf | JsNegInf | JsNaN

record js_waypoint =
  js_lat :: jsnum
  js_lng :: jsnum

definition js_of :: "waypoint \<Rightarrow> js_waypoint" where
  "js_of w = \<lparr> js_lat = JsNum (lat w), js_lng = JsNum (lng w) \<rparr>"

fun js_finite :: "jsnum \<Rightarrow> bool" where
  "js_finite (JsNum r) = True"
| "js_finite JsNegZero = True"
| "js_finite _ = False"

text \<open>Strict equality \<open>===\<close> on numbers: NaN equals nothing, the two zeros are equal.\<close>

fun js_eq :: "jsnum \<Rightarrow> jsnum \<Rightarrow> bool" where
  "js_eq JsNaN _ = False"
| "js_eq _ JsNaN = False"
| "js_eq JsNegZero JsNegZero = True"
| "js_eq JsNegZero (JsNum b) = (b = 0)"
| "js_eq (JsNum a) JsNegZero = (a = 0)"
| "js_eq a b = (a = b)"

text \<open>
  Subtraction \<open>a - b\<close>: equal infinities give NaN; equal finite values give the positive
  zero, except \<open>(-0) - (+0)\<close>, which is the negative zero.
\<close>

fun js_sub :: "jsnum \<Rightarrow> jsnum \<Rightarrow> jsnum" where
  "js_sub JsNaN _ = JsNaN"
| "js_sub _ JsNaN = JsNaN"
| "js_sub JsPosInf JsPosInf = JsNaN"
| "js_sub JsPosInf _ = JsPosInf"
| "js_sub JsNegInf JsNegInf = JsNaN"
| "js_sub JsNegInf _ = JsNegInf"
| "js_sub _ JsPosInf = JsNegInf"
| "js_sub _ JsNegInf = JsPosInf"
| "js_sub JsNegZero JsNegZero = JsNum 0"
| "js_sub JsNegZero (JsNum b) = (if b = 0 then JsNegZero else JsNum (- b))"
| "js_sub (JsNum a) JsNegZero = JsNum a"
| "js_sub (JsNum a) (JsNum b) = JsNum (a - b)"

text \<open>
  Multiplication and division by a positive finite constant, as in \<open>* 180\<close> and
  \<open>/ Math.PI\<close>: the zeros, the infinities and NaN stay what they are.
\<close>

fun js_mul_pos :: "jsnum \<Rightarrow> real \<Rightarrow> jsnum" where
  "js_mul_pos (JsNum r) c = JsNum (r * c)"
| "js_mul_pos n c = n"

fun js_div_pos :: "jsnum \<Rightarrow> real \<Rightarrow> jsnum" where
  "js_div_pos (JsNum r) c = JsNum (r / c)"
| "js_div_pos n c = n"

text \<open>
  The angle of the point \<open>(x, y)\<close> in \<open>(-\<pi>, \<pi>]\<close>, for finite \<open>x\<close> and \<open>y\<close> with
  positive zeros; at the origin it is 0.
\<close>

definition atan2_real :: "real \<Rightarrow> real \<Rightarrow> real" where
  "atan2_real y x =
     (if 0 < x then arctan (y / x)
      else if x < 0 then (if 0 \<le> y then arctan (y / x) + pi else arctan (y / x) - pi)
      else if 0 < y then pi / 2
      else if y < 0 then - (pi / 2)
      else 0)"

text \<open>
  \<open>Math.atan2(y, x)\<close> with the special cases of the language definition: NaN for a
  NaN argument, the multiples of \<open>\<pi>/4\<close> and \<open>\<pi>/2\<close> for infinite arguments, and for a
  zero \<open>y\<close> a zero of the same sign when \<open>x\<close> is positive or \<open>+0\<close>, and \<open>\<pi>\<close> with the
  sign of \<open>y\<close> when \<open>x\<close> is negative or \<open>-0\<close>.
\<close>

fun Math_atan2 :: "jsnum \<Rightarrow> jsnum \<Rightarrow> jsnum" where
  "Math_atan2 JsNaN _ = JsNaN"
| "Math_atan2 _ JsNaN = JsNaN"
| "Math_atan2 JsPosInf JsPosInf = JsNum (pi / 4)"
| "Math_atan2 JsPosInf JsNegInf = JsNum (3 * pi / 4)"
| "Math_atan2 JsPosInf _ = JsNum (pi / 2)"
| "Math_atan2 JsNegInf JsPosInf = JsNum (- (pi / 4))"
| "Math_atan2 JsNegInf JsNegInf = JsNum (- (3 * pi / 4))"
| "Math_atan2 JsNegInf _ = JsNum (- (pi / 2))"
| "Math_atan2 (JsNum y) JsPosInf = (if 0 \<le> y then JsNum 0 else JsNegZero)"
| "Math_atan2 (JsNum y) JsNegInf = (if 0 \<le> y then JsNum pi else JsNum (- pi))"
| "Math_atan2 (JsNum y) JsNegZero =
     (if y = 0 then JsNum pi else if 0 < y then JsNum (pi / 2) else JsNum (- (pi / 2)))"
| "Math_atan2 (JsNum y) (JsNum x) = JsNum (atan2_real y x)"
| "Math_atan2 JsNegZero JsPosInf = JsNegZero"
| "Math_atan2 JsNegZero JsNegInf = JsNum (- pi)"
| "Math_atan2 JsNegZero JsNegZero = JsNum (- pi)"
| "Math_atan2 JsNegZero (JsNum x) = (if 0 \<le> x then JsNegZero else JsNum (- pi))"

text \<open>
  \<open>getRotationAngle\<close> (lines 44 to 48) passes the longitude difference as \<open>y\<close> and the
  latitude difference as \<open>x\<close>.
\<close>

definition getRotationAngle :: "js_waypoint \<Rightarrow> js_waypoint \<Rightarrow> jsnum" where
  "getRotationAngle prev next =
     (let dx = js_sub (js_lng next) (js_lng prev);
          dy = js_sub (js_lat next) (js_lat prev)
      in js_div_pos (js_mul_pos (Math_atan2 dx dy) 180) pi)"

section \<open>Effects\<close>

text \<open>Array indexing: out of range gives \<open>undefined\<close>.\<close>

definition item :: "'a list \<Rightarrow> nat \<Rightarrow> 'a option" where
  "item xs i = (if i < length xs then Some (xs ! i) else None)"

text \<open>
  Lines 145 and 167 to 168: the marker is in the tree when the route is non-empty and both \<open>interpolatedPos?.lat\<close>
  and \<open>interpolatedPos?.lng\<close> are defined; an array has neither property.
\<close>

definition marker_rendered :: "state \<Rightarrow> bool" where
  "marker_rendered s =
     (0 < length (routeData s) \<and>
      (case interpolatedPos s of PosRecord _ _ \<Rightarrow> True | PosArray _ _ \<Rightarrow> False))"

text \<open>
  The body of the animation effect (lines 77 to 86): the interval it arms, with
  \<open>step = 0\<close>, or none when it returns early.
\<close>

definition animation_effect :: "state \<Rightarrow> interval option" where
  "animation_effect s =
     (if \<not> isPlaying s \<or> length (routeData s) < 2 then None
      else case (item (routeData s) (currentIndex s), item (routeData s) (currentIndex s + 1)) of
             (Some a, Some b) \<Rightarrow> Some \<lparr> seg_start = a, seg_end = b, step = 0 \<rparr>
           | _ \<Rightarrow> None)"

text \<open>
  After a render, the animation effect runs again (cleanup first, which clears the
  interval) when one of its dependencies \<open>[isPlaying, currentIndex, routeData]\<close>
  changed; otherwise the armed interval and its \<open>step\<close> stay as they are. \<open>routeChanged\<close> says that
  \<open>setRouteData\<close> was called with a fresh array.
\<close>

definition commit :: "bool \<Rightarrow> state \<Rightarrow> state \<Rightarrow> state" where
  "commit routeChanged old new =
     (if routeChanged \<or> isPlaying new \<noteq> isPlaying old
         \<or> currentIndex new \<noteq> currentIndex old
      then new\<lparr> intervalRef := animation_effect new \<rparr> else new)"

text \<open>
  The rotation effect (lines 107 to 119), as a function of what it reads: whether
  \<open>markerRef.current\<close> is set, \<open>currentIndex\<close>, \<open>routeData\<close>, and the angle the marker
  had before (\<open>None\<close>: never set). After a render \<open>markerRef.current\<close> is set exactly
  when the marker is rendered.
\<close>

definition rotation_effect ::
  "bool \<Rightarrow> nat \<Rightarrow> js_waypoint list \<Rightarrow> jsnum option \<Rightarrow> jsnum option" where
  "rotation_effect marker idx route angle =
     (if \<not> marker \<or> idx = 0 \<or> length route \<le> idx
      then angle
      else case (item route (idx - 1), item route idx) of
             (Some prev, Some next) \<Rightarrow> Some (getRotationAngle prev next)
           | _ \<Rightarrow> angle)"

definition rotation_commit ::
  "bool \<Rightarrow> state \<Rightarrow> state \<Rightarrow> jsnum option \<Rightarrow> jsnum option" where
  "rotation_commit routeChanged old new angle =
     (if routeChanged \<or> currentIndex new \<noteq> currentIndex old
      then rotation_effect (marker_rendered new) (currentIndex new)
             (map js_of (routeData new)) angle
      else angle)"

section \<open>Events\<close>

text \<open>
  The load effect (lines 64 to 74) stores the route and a two-element array as
  position. \<open>a || b\<close> on a number \<open>a\<close>: zero is falsy. The effect has no
  dependencies, so it runs once: \<open>loadPending\<close> is true until its promise resolves.
\<close>

definition or_default :: "real \<Rightarrow> real \<Rightarrow> real" where
  "or_default a b = (if a = 0 then b else a)"

definition load :: "waypoint list \<Rightarrow> state \<Rightarrow> state" where
  "load data s =
     commit True s
       (s\<lparr> routeData := data,
           interpolatedPos :=
             (case data of
                [] \<Rightarrow> PosArray (fst INITIAL_CENTER) (snd INITIAL_CENTER)
              | w # _ \<Rightarrow> PosArray (or_default (lat w) (fst INITIAL_CENTER))
                                  (or_default (lng w) (snd INITIAL_CENTER))),
           loadPending := False \<rparr>)"

text \<open>The two controls, lines 122 to 128.\<close>

definition togglePlay :: "state \<Rightarrow> state" where
  "togglePlay s = commit False s (s\<lparr> isPlaying := \<not> isPlaying s \<rparr>)"

definition resetSimulation :: "state \<Rightarrow> state" where
  "resetSimulation s =
     commit False s
       (s\<lparr> isPlaying := False, currentIndex := 0,
           interpolatedPos :=
             (case routeData s of
                [] \<Rightarrow> interpolatedPos s
              | w # _ \<Rightarrow> PosRecord (lat w) (lng w)) \<rparr>)"

text \<open>
  The updater passed to \<open>setCurrentIndex\<close> by the interval callback (lines 96 to 98):
  \<open>prev + 1 < routeData.length - 1 ? prev + 1 : prev\<close>.
\<close>

definition advance :: "nat \<Rightarrow> nat \<Rightarrow> nat" where
  "advance len prev = (if int prev + 1 < int len - 1 then prev + 1 else prev)"

text \<open>
  One firing of the interval callback (lines 88 to 101): \<open>step++\<close>, the new position,
  and when \<open>step >= steps\<close> the index update and \<open>step = 0\<close>; then the render and
  its effects. Without an armed interval nothing fires.
\<close>

definition tick :: "state \<Rightarrow> state" where
  "tick s =
     (case intervalRef s of
        None \<Rightarrow> s
      | Some t \<Rightarrow>
          (let k = step t + 1;
               s1 = s\<lparr> interpolatedPos := interp (seg_start t) (seg_end t) k \<rparr>
           in if steps \<le> k
              then commit False s
                     (s1\<lparr> currentIndex := advance (length (routeData s)) (currentIndex s),
                          intervalRef := Some (t\<lparr> step := 0 \<rparr>) \<rparr>)
              else commit False s (s1\<lparr> intervalRef := Some (t\<lparr> step := k \<rparr>) \<rparr>)))"

text \<open>
  The events of the component: the load effect's promise resolving with a route, the
  two buttons, and the timer. \<open>ticks n\<close> is \<open>n\<close> firings of the timer in a row.
\<close>

datatype event = Load "waypoint list" | TogglePlay | Reset | Tick

fun fire :: "event \<Rightarrow> state \<Rightarrow> state" where
  "fire (Load data) s = (if loadPending s then load data s else s)"
| "fire TogglePlay s = togglePlay s"
| "fire Reset s = resetSimulation s"
| "fire Tick s = tick s"

fun run :: "event list \<Rightarrow> state \<Rightarrow> state" where
  "run [] s = s"
| "run (e # es) s = run es (fire e s)"

fun ticks :: "nat \<Rightarrow> state \<Rightarrow> state" where
  "ticks 0 s = s"
| "ticks (Suc n) s = ticks n (tick s)"

text \<open>
  The marker's rotation angle along a run of events: the rotation effect runs again when
  one of its dependencies \<open>[currentIndex, routeData]\<close> changed.
\<close>

fun is_load :: "event \<Rightarrow> state \<Rightarrow> bool" where
  "is_load (Load data) s = loadPending s"
| "is_load _ s = False"

fun run_rotation :: "event list \<Rightarrow> state \<Rightarrow> jsnum option \<Rightarrow> jsnum option" where
  "run_rotation [] s angle = angle"
| "run_rotation (e # es) s angle =
     run_rotation es (fire e s) (rotation_commit (is_load e s) s (fire e s) angle)"

text \<open>The states the component can be in.\<close>

inductive reachable :: "state \<Rightarrow> bool" where
  reach_init: "reachable init"
| reach_fire: "reachable s \<Longrightarrow> reachable (fire e s)"

section \<open>The variant of the component in the unnamed source part\<close>

text \<open>
  The unnamed source part holds a variant of the same component without interpolation
  (its lines 15 to 67): the interval callback increments \<open>currentIndex\<close> directly,
  the marker sits at \<open>routeData[currentIndex] || routeData[0]\<close>, and the animation
  effect arms the interval only while \<open>currentIndex < routeData.length - 1\<close>. Its names carry the
  suffix \<open>_p0\<close>; \<open>intervalRef_p0\<close> says whether an interval is armed.
\<close>

record state_p0 =
  routeData_p0 :: "waypoint list"
  currentIndex_p0 :: nat
  isPlaying_p0 :: bool
  intervalRef_p0 :: bool

definition animation_effect_p0 :: "state_p0 \<Rightarrow> bool" where
  "animation_effect_p0 s =
     (isPlaying_p0 s \<and> 0 < length (routeData_p0 s) \<and>
      int (currentIndex_p0 s) < int (length (routeData_p0 s)) - 1)"

definition commit_p0 :: "state_p0 \<Rightarrow> state_p0 \<Rightarrow> state_p0" where
  "commit_p0 old new =
     (if isPlaying_p0 new \<noteq> isPlaying_p0 old \<or> currentIndex_p0 new \<noteq> currentIndex_p0 old
      then new\<lparr> intervalRef_p0 := animation_effect_p0 new \<rparr> else new)"

definition togglePlay_p0 :: "state_p0 \<Rightarrow> state_p0" where
  "togglePlay_p0 s = commit_p0 s (s\<lparr> isPlaying_p0 := \<not> isPlaying_p0 s \<rparr>)"

definition resetSimulation_p0 :: "state_p0 \<Rightarrow> state_p0" where
  "resetSimulation_p0 s = commit_p0 s (s\<lparr> isPlaying_p0 := False, currentIndex_p0 := 0 \<rparr>)"

definition tick_p0 :: "state_p0 \<Rightarrow> state_p0" where
  "tick_p0 s =
     (if intervalRef_p0 s then commit_p0 s (s\<lparr> currentIndex_p0 := currentIndex_p0 s + 1 \<rparr>)
      else s)"

definition currentPosition_p0 :: "state_p0 \<Rightarrow> waypoint option" where
  "currentPosition_p0 s =
     (case item (routeData_p0 s) (currentIndex_p0 s) of
        Some w \<Rightarrow> Some w
      | None \<Rightarrow> item (routeData_p0 s) 0)"

text \<open>
  The rotation effect of the variant (its lines 55 to 67), with the angle computed
  inline, as a function of \<open>currentIndex\<close>, \<open>routeData\<close> and the angle before; its
  marker is rendered whenever the route is non-empty.
\<close>

definition rotation_effect_p0 ::
  "nat \<Rightarrow> js_waypoint list \<Rightarrow> jsnum option \<Rightarrow> jsnum option" where
  "rotation_effect_p0 idx route angle =
     (if route = [] \<or> idx = 0 \<or> length route \<le> idx
      then angle
      else case (item route (idx - 1), item route idx) of
             (Some prev, Some next) \<Rightarrow>
               (let dx = js_sub (js_lng next) (js_lng prev);
                    dy = js_sub (js_lat next) (js_lat prev)
                in Some (js_div_pos (js_mul_pos (Math_atan2 dx dy) 180) pi))
           | _ \<Rightarrow> angle)"

section \<open>The interpolation of the specification\<close>

text \<open>
  The specification's \<open>position(route, segmentIndex, progress)\<close>, in its own words:
  \<open>lat = start.lat + (end.lat - start.lat) * progress\<close>, same for \<open>lng\<close>.
\<close>

definition position_spec :: "waypoint list \<Rightarrow> nat \<Rightarrow> real \<Rightarrow> position" where
  "position_spec route i p =
     PosRecord (lat (route ! i) + (lat (route ! (i + 1)) - lat (route ! i)) * p)
               (lng (route ! i) + (lng (route ! (i + 1)) - lng (route ! i)) * p)"

section \<open>The polyline decoder and a clock\<close>

text \<open>
  Modelled from the spec: \<open>polyline.decode\<close> belongs to the imported package
  \<open>@mapbox/polyline\<close> and is not among the sources; the specification names the format
  as the standard encoded polyline with precision 5. Each value is a run of characters
  holding five bits each (offset 63, bit 32 marks continuation, least significant group
  first), zigzag-encoded, and each pair of values is a delta to the previous point in
  units of \<open>1e-5\<close> degrees. The theorems about \<open>fetchRouteData\<close> take the decoder as
  a parameter; this definition instantiates it at concrete inputs. The fuel of
  \<open>decode_loop\<close> is the length of the string, and every round consumes a character.
\<close>

fun read_value :: "string \<Rightarrow> int \<Rightarrow> int \<Rightarrow> int \<times> string" where
  "read_value [] shift result = (result, [])"
| "read_value (c # cs) shift result =
     (let byte = int (of_char c) - 63;
          result' = result + (and byte 31) * shift
      in if 32 \<le> byte then read_value cs (shift * 32) result' else (result', cs))"

definition unzigzag :: "int \<Rightarrow> int" where
  "unzigzag result = (if and result 1 \<noteq> 0 then (- result - 1) div 2 else result div 2)"

fun decode_loop :: "nat \<Rightarrow> string \<Rightarrow> int \<Rightarrow> int \<Rightarrow> (real \<times> real) list" where
  "decode_loop 0 str la lo = []"
| "decode_loop (Suc fuel) str la lo =
     (if str = [] then []
      else let (r1, rest1) = read_value str 1 0;
               (r2, rest2) = read_value rest1 1 0;
               la' = la + unzigzag r1;
               lo' = lo + unzigzag r2
           in (real_of_int la' / 100000, real_of_int lo' / 100000)
              # decode_loop fuel rest2 la' lo')"

definition polyline_decode :: "string \<Rightarrow> (real \<times> real) list" where
  "polyline_decode str = decode_loop (length str) str 0 0"

text \<open>A clock for concrete runs: successive readings of \<open>Date.now()\<close>.\<close>

definition sample_clock :: "nat \<Rightarrow> int" where
  "sample_clock i = 1762041600000 + int i"

section \<open>Binary64 evaluation of the interpolation\<close>

text \<open>
  JavaScript evaluates \<open>start.lat + ((end.lat - start.lat) * step) / steps\<close> in IEEE 754
  binary64 with round-to-nearest, ties-to-even. A finite double is modelled by the
  rational it denotes (the two zeros are identified); \<open>None\<close> stands for a result that
  is not finite. \<open>fl\<close> rounds a rational to the nearest double: the quantum is
  \<open>2 ^ (\<lfloor>log\<^sub>2 |x|\<rfloor> - 52)\<close>, not below \<open>2 ^ -1074\<close> (subnormal numbers), and a rounded
  magnitude above \<open>Number.MAX_VALUE\<close> overflows.
\<close>

definition pow2 :: "int \<Rightarrow> rat" where
  "pow2 e = (if 0 \<le> e then 2 ^ nat e else 1 / 2 ^ nat (- e))"

definition rne :: "rat \<Rightarrow> int" where
  "rne x =
     (let f = \<lfloor>x\<rfloor>; d = x - of_int f
      in if d < 1 / 2 then f
         else if 1 / 2 < d then f + 1
         else if even f then f else f + 1)"

definition ilog2 :: "rat \<Rightarrow> int" where
  "ilog2 x =
     (let (a, b) = quotient_of x; k = bitlen a - bitlen b
      in if pow2 k \<le> x then k else k - 1)"

definition MAX_VALUE :: rat where
  "MAX_VALUE = 179769313486231570814527423731704356798070567525844996598917476803157260780028538760589558632766878171540458953514382464234321326889464182768467546703537516986049910576551282076245490090389328944075868508455133942304583236903222948165808559332123348274797826204144723168738177180919299881250404026184124858368"

definition fl :: "rat \<Rightarrow> rat option" where
  "fl x =
     (if x = 0 then Some 0
      else let q = max (ilog2 \<bar>x\<bar> - 52) (- 1074);
               r = of_int (rne (x / pow2 q)) * pow2 q
           in if MAX_VALUE < \<bar>r\<bar> then None else Some r)"

definition fadd :: "rat \<Rightarrow> rat \<Rightarrow> rat option" where
  "fadd a b = fl (a + b)"

definition fsub :: "rat \<Rightarrow> rat \<Rightarrow> rat option" where
  "fsub a b = fl (a - b)"

definition fmul :: "rat \<Rightarrow> rat \<Rightarrow> rat option" where
  "fmul a b = fl (a * b)"

definition fdiv :: "rat \<Rightarrow> rat \<Rightarrow> rat option" where
  "fdiv a b = (if b = 0 then None else fl (a / b))"

text \<open>One coordinate of the tick callback's position, operation by operation.\<close>

definition interp_binary64 :: "rat \<Rightarrow> rat \<Rightarrow> nat \<Rightarrow> rat option" where
  "interp_binary64 a b k =
     Option.bind (fsub b a) (\<lambda>d.
     Option.bind (fmul d (of_nat k)) (\<lambda>m.
     Option.bind (fdiv m (of_nat steps)) (\<lambda>q. fadd a q)))"

section \<open>Invariant and sample routes\<close>

text \<open>
  What holds in every reachable state: before the load the route is empty; the index
  is 0 or the start of a segment; an interval is armed exactly while playing on a route
  with a segment, and its closure holds the current segment.
\<close>

definition wf :: "state \<Rightarrow> bool" where
  "wf s =
     ((loadPending s \<longrightarrow> routeData s = []) \<and>
      (currentIndex s = 0 \<or> currentIndex s + 1 < length (routeData s)) \<and>
      (case intervalRef s of
         None \<Rightarrow> \<not> isPlaying s \<or> length (routeData s) < 2
       | Some t \<Rightarrow>
           isPlaying s \<and> currentIndex s + 1 < length (routeData s) \<and>
           seg_start t = routeData s ! currentIndex s \<and>
           seg_end t = routeData s ! (currentIndex s + 1) \<and>
           step t < steps))"

text \<open>The two-waypoint route of the specification's scenario.\<close>

definition scenario_route :: "waypoint list" where
  "scenario_route =
     [\<lparr> lat = 17.40, lng = 78.49, timestamp = 0 \<rparr>,
      \<lparr> lat = 17.41, lng = 78.50, timestamp = 0 \<rparr>]"

text \<open>A route with two segments, and one whose middle segment has length zero.\<close>

definition three_route :: "waypoint list" where
  "three_route =
     [\<lparr> lat = 0, lng = 0, timestamp = 0 \<rparr>,
      \<lparr> lat = 0, lng = 1, timestamp = 0 \<rparr>,
      \<lparr> lat = 1, lng = 1, timestamp = 0 \<rparr>]"

definition stationary_route :: "waypoint list" where
  "stationary_route =
     [\<lparr> lat = 0, lng = 0, timestamp = 0 \<rparr>,
      \<lparr> lat = 0, lng = 1, timestamp = 1 \<rparr>,
      \<lparr> lat = 0, lng = 1, timestamp = 2 \<rparr>,
      \<lparr> lat = 1, lng = 1, timestamp = 3 \<rparr>]"

text \<open>A state of the variant of the component on that route, at index 2.\<close>

definition stationary_p0 :: state_p0 where
  "stationary_p0 = \<lparr> routeData_p0 = stationary_route, currentIndex_p0 = 2,
                     isPlaying_p0 = True, intervalRef_p0 = True \<rparr>"

section \<open>The invariant holds in every reachable state\<close>

lemmas model_defs =
  init_def load_def togglePlay_def resetSimulation_def tick_def commit_def
  animation_effect_def item_def advance_def interp_def steps_def
  INITIAL_CENTER_def or_default_def

lemma wf_init: "wf init"
  by (simp add: wf_def init_def)

lemma wf_load: "wf s \<Longrightarrow> loadPending s \<Longrightarrow> wf (load data s)"
  by (auto simp: wf_def load_def commit_def animation_effect_def item_def steps_def
      split: option.splits list.splits)

lemma wf_togglePlay: "wf s \<Longrightarrow> wf (togglePlay s)"
  by (auto simp: wf_def togglePlay_def commit_def animation_effect_def item_def steps_def
      split: option.splits)

lemma wf_resetSimulation: "wf s \<Longrightarrow> wf (resetSimulation s)"
  by (auto simp: wf_def resetSimulation_def commit_def animation_effect_def item_def steps_def
      split: option.splits list.splits)

lemma wf_tick: "wf s \<Longrightarrow> wf (tick s)"
  by (auto simp: wf_def tick_def commit_def animation_effect_def item_def steps_def advance_def Let_def
      split: option.splits)

lemma wf_fire: "wf s \<Longrightarrow> wf (fire e s)"
  by (cases e) (simp_all add: wf_load wf_togglePlay wf_resetSimulation wf_tick)

lemma reachable_wf: "reachable s \<Longrightarrow> wf s"
  by (induction rule: reachable.induct) (simp_all add: wf_init wf_fire)

lemma wf_ticks: "wf s \<Longrightarrow> wf (ticks n s)"
  by (induction n arbitrary: s) (simp_all add: wf_tick)

lemma reachable_run: "reachable s \<Longrightarrow> reachable (run es s)"
  by (induction es arbitrary: s) (simp_all add: reach_fire)

lemma reachable_ticks: "reachable s \<Longrightarrow> reachable (ticks n s)"
proof (induction n arbitrary: s)
  case 0
  then show ?case by simp
next
  case (Suc n)
  from Suc.prems have "reachable (fire Tick s)" by (rule reach_fire)
  then show ?case using Suc.IH by simp
qed

lemma routeData_fire: "e \<in> {Tick, TogglePlay, Reset} \<Longrightarrow> routeData (fire e s) = routeData s"
  by (auto simp: tick_def togglePlay_def resetSimulation_def commit_def Let_def split: option.splits)

lemma run_append: "run (es @ fs) s = run fs (run es s)"
  by (induction es arbitrary: s) simp_all

lemma run_replicate_Tick: "run (replicate n Tick) s = ticks n s"
  by (induction n arbitrary: s) simp_all

section \<open>Ticks within a segment and across segments\<close>

lemma ticks_add: "ticks (m + n) s = ticks n (ticks m s)"
  by (induction m arbitrary: s) simp_all

lemma ticks_Suc_right: "ticks (Suc n) s = tick (ticks n s)"
  using ticks_add [of n 1 s] by simp

lemma tick_within:
  assumes "intervalRef s = Some t" and "step t + 1 < steps"
  shows "tick s = s\<lparr> interpolatedPos := interp (seg_start t) (seg_end t) (step t + 1),
                      intervalRef := Some (t\<lparr> step := step t + 1 \<rparr>) \<rparr>"
  using assms by (simp add: tick_def commit_def Let_def)

lemma tick_boundary:
  assumes "intervalRef s = Some t" and "step t + 1 = steps"
  shows "tick s =
     commit False s
       (s\<lparr> interpolatedPos := interp (seg_start t) (seg_end t) steps,
           currentIndex := advance (length (routeData s)) (currentIndex s),
           intervalRef := Some (t\<lparr> step := 0 \<rparr>) \<rparr>)"
  using assms by (simp add: tick_def Let_def)

lemma tick_position:
  assumes "intervalRef s = Some t"
  shows "routeData (tick s) = routeData s"
    and "interpolatedPos (tick s) = interp (seg_start t) (seg_end t) (step t + 1)"
  using assms by (simp_all add: tick_def commit_def Let_def)

lemma ticks_within:
  assumes "intervalRef s = Some t" and "step t + k < steps" and "0 < k"
  shows "ticks k s = s\<lparr> interpolatedPos := interp (seg_start t) (seg_end t) (step t + k),
                         intervalRef := Some (t\<lparr> step := step t + k \<rparr>) \<rparr>"
  using assms
proof (induction k arbitrary: s t)
  case 0
  then show ?case by simp
next
  case (Suc k)
  have st: "step t + 1 < steps" using Suc.prems(2) by simp
  let ?s1 = "tick s"
  have t1: "?s1 = s\<lparr> interpolatedPos := interp (seg_start t) (seg_end t) (step t + 1),
                      intervalRef := Some (t\<lparr> step := step t + 1 \<rparr>) \<rparr>"
    using Suc.prems(1) st by (rule tick_within)
  show ?case
  proof (cases "k = 0")
    case True
    then show ?thesis using t1 by simp
  next
    case False
    have i1: "intervalRef ?s1 = Some (t\<lparr> step := step t + 1 \<rparr>)" using t1 by simp
    have b1: "step (t\<lparr> step := step t + 1 \<rparr>) + k < steps" using Suc.prems(2) by simp
    from Suc.IH [OF i1 b1] False
    have "ticks k ?s1 = ?s1\<lparr> interpolatedPos := interp (seg_start t) (seg_end t) (step t + 1 + k),
                         intervalRef := Some (t\<lparr> step := step t + 1 + k \<rparr>) \<rparr>"
      by simp
    then show ?thesis using t1 by (simp add: add.commute add.left_commute)
  qed
qed

lemma interp_zero: "interp a b 0 = PosRecord (lat a) (lng a)"
  by (simp add: interp_def)

lemma interp_steps: "interp a b steps = PosRecord (lat b) (lng b)"
  by (simp add: interp_def steps_def diff_divide_distrib)

lemma interpolatedPos_ticks:
  assumes "intervalRef s = Some t" and "step t + k \<le> steps" and "0 < k"
  shows "interpolatedPos (ticks k s) = interp (seg_start t) (seg_end t) (step t + k)"
proof (cases "step t + k < steps")
  case True
  from ticks_within [OF assms(1) True assms(3)] show ?thesis by simp
next
  case False
  then have eq: "step t + k = steps" using assms(2) by simp
  obtain j where k: "k = Suc j" using assms(3) by (cases k) auto
  show ?thesis
  proof (cases "j = 0")
    case True
    then have "step t + 1 = steps" using eq k by simp
    from tick_boundary [OF assms(1) this] show ?thesis
      using k True eq by (simp add: commit_def)
  next
    case False
    then have j: "0 < j" by simp
    have lt: "step t + j < steps" using eq k by simp
    let ?u = "ticks j s"
    have u: "?u = s\<lparr> interpolatedPos := interp (seg_start t) (seg_end t) (step t + j),
                      intervalRef := Some (t\<lparr> step := step t + j \<rparr>) \<rparr>"
      using assms(1) lt j by (rule ticks_within)
    have iu: "intervalRef ?u = Some (t\<lparr> step := step t + j \<rparr>)" using u by simp
    have su: "step (t\<lparr> step := step t + j \<rparr>) + 1 = steps" using eq k by simp
    have "ticks k s = tick ?u" unfolding k by (rule ticks_Suc_right)
    also have "interpolatedPos (tick ?u) = interp (seg_start t) (seg_end t) steps"
      using tick_boundary [OF iu su] by (simp add: commit_def)
    finally show ?thesis using eq by simp
  qed
qed

lemma interval_eqI:
  "seg_start t = a \<Longrightarrow> seg_end t = b \<Longrightarrow> step t = k \<Longrightarrow>
   t = \<lparr> seg_start = a, seg_end = b, step = k \<rparr>"
  by (cases t) simp

lemma ticks_segment_state:
  assumes w: "wf s" and t: "intervalRef s = Some t" and z: "step t = 0"
  shows "ticks steps s =
     s\<lparr> interpolatedPos := PosRecord (lat (routeData s ! (currentIndex s + 1)))
                                     (lng (routeData s ! (currentIndex s + 1))),
         currentIndex := advance (length (routeData s)) (currentIndex s),
         intervalRef :=
           Some \<lparr> seg_start = routeData s ! advance (length (routeData s)) (currentIndex s),
                  seg_end = routeData s ! (advance (length (routeData s)) (currentIndex s) + 1),
                  step = 0 \<rparr> \<rparr>"
proof -
  from w t have inv: "isPlaying s" "currentIndex s + 1 < length (routeData s)"
    "seg_start t = routeData s ! currentIndex s"
    "seg_end t = routeData s ! (currentIndex s + 1)"
    by (simp_all add: wf_def)
  let ?u = "ticks 19 s"
  have u: "?u = s\<lparr> interpolatedPos := interp (seg_start t) (seg_end t) (step t + 19),
                    intervalRef := Some (t\<lparr> step := step t + 19 \<rparr>) \<rparr>"
    using t by (rule ticks_within) (simp_all add: z steps_def)
  have iu: "intervalRef ?u = Some (t\<lparr> step := step t + 19 \<rparr>)" using u by simp
  have su: "step (t\<lparr> step := step t + 19 \<rparr>) + 1 = steps" by (simp add: z steps_def)
  have "ticks steps s = ticks (Suc 19) s" by (simp add: steps_def)
  also have "\<dots> = tick ?u" by (rule ticks_Suc_right)
  finally have fin: "ticks steps s =
     commit False ?u
       (?u\<lparr> interpolatedPos := interp (seg_start t) (seg_end t) steps,
            currentIndex := advance (length (routeData ?u)) (currentIndex ?u),
            intervalRef := Some (t\<lparr> step := 0 \<rparr>) \<rparr>)"
    using tick_boundary [OF iu su] by simp
  have t0: "t\<lparr> step := 0 \<rparr> = \<lparr> seg_start = routeData s ! currentIndex s,
      seg_end = routeData s ! (currentIndex s + 1), step = 0 \<rparr>"
    by (rule interval_eqI) (simp_all add: inv)
  show ?thesis
  proof (cases "advance (length (routeData s)) (currentIndex s) = currentIndex s")
    case True
    then show ?thesis
      unfolding fin using u inv t0 by (simp add: commit_def interp_steps)
  next
    case False
    then have adv: "advance (length (routeData s)) (currentIndex s) = currentIndex s + 1"
      "currentIndex s + 2 < length (routeData s)"
      by (auto simp: advance_def split: if_splits)
    show ?thesis
      unfolding fin using u inv adv
      by (simp add: commit_def interp_steps animation_effect_def item_def)
  qed
qed

lemma ticks_segment:
  assumes w: "wf s" and t: "intervalRef s = Some t" and z: "step t = 0"
  shows "routeData (ticks steps s) = routeData s \<and>
         currentIndex (ticks steps s) = advance (length (routeData s)) (currentIndex s) \<and>
         isPlaying (ticks steps s) \<and>
         interpolatedPos (ticks steps s) =
           PosRecord (lat (routeData s ! (currentIndex s + 1)))
                     (lng (routeData s ! (currentIndex s + 1))) \<and>
         intervalRef (ticks steps s) =
           Some \<lparr> seg_start = routeData s ! advance (length (routeData s)) (currentIndex s),
                  seg_end = routeData s ! (advance (length (routeData s)) (currentIndex s) + 1),
                  step = 0 \<rparr>"
proof -
  from w t have "isPlaying s" by (simp add: wf_def)
  then show ?thesis unfolding ticks_segment_state [OF w t z] by simp
qed

lemma ticks_segments:
  assumes "wf s" and "intervalRef s = Some t" and "step t = 0"
    and "0 < m" and "currentIndex s + m < length (routeData s)"
  shows "routeData (ticks (steps * m) s) = routeData s \<and>
         currentIndex (ticks (steps * m) s)
           = min (currentIndex s + m) (length (routeData s) - 2) \<and>
         isPlaying (ticks (steps * m) s) \<and>
         interpolatedPos (ticks (steps * m) s) =
           PosRecord (lat (routeData s ! (currentIndex s + m)))
                     (lng (routeData s ! (currentIndex s + m))) \<and>
         (\<exists>t'. intervalRef (ticks (steps * m) s) = Some t' \<and> step t' = 0)"
  using assms
proof (induction m arbitrary: s t)
  case 0
  then show ?case by simp
next
  case (Suc m)
  let ?s1 = "ticks steps s"
  note seg = ticks_segment [OF Suc.prems(1) Suc.prems(2) Suc.prems(3)]
  show ?case
  proof (cases "m = 0")
    case True
    have "advance (length (routeData s)) (currentIndex s)
        = min (currentIndex s + 1) (length (routeData s) - 2)"
      using Suc.prems(5) True by (auto simp: advance_def)
    then show ?thesis using seg True by simp
  next
    case False
    then have m: "0 < m" by simp
    have adv: "advance (length (routeData s)) (currentIndex s) = currentIndex s + 1"
      using Suc.prems(5) m by (auto simp: advance_def)
    have w1: "wf ?s1" using Suc.prems(1) by (rule wf_ticks)
    from seg adv obtain t1 where t1: "intervalRef ?s1 = Some t1" "step t1 = 0"
      by simp
    have b1: "currentIndex ?s1 + m < length (routeData ?s1)"
      using seg adv Suc.prems(5) by simp
    have split: "ticks (steps * Suc m) s = ticks (steps * m) ?s1"
      using ticks_add [of steps "steps * m" s] by simp
    from Suc.IH [OF w1 t1 m b1] seg adv show ?thesis
      unfolding split by (simp add: add.commute add.left_commute)
  qed
qed

lemma togglePlay_start:
  assumes "\<not> isPlaying s" and "currentIndex s + 1 < length (routeData s)"
  shows "intervalRef (togglePlay s) =
           Some \<lparr> seg_start = routeData s ! currentIndex s,
                  seg_end = routeData s ! (currentIndex s + 1), step = 0 \<rparr>"
    and "routeData (togglePlay s) = routeData s"
    and "currentIndex (togglePlay s) = currentIndex s"
    and "interpolatedPos (togglePlay s) = interpolatedPos s"
    and "isPlaying (togglePlay s)"
  using assms by (simp_all add: togglePlay_def commit_def animation_effect_def item_def)

lemma playback_reaches_final_waypoint:
  assumes r: "reachable s" and stopped: "\<not> isPlaying s" and i0: "currentIndex s = 0"
    and n: "2 \<le> length (routeData s)"
  shows "routeData (ticks (steps * (length (routeData s) - 1)) (togglePlay s)) = routeData s \<and>
         currentIndex (ticks (steps * (length (routeData s) - 1)) (togglePlay s))
           = length (routeData s) - 2 \<and>
         isPlaying (ticks (steps * (length (routeData s) - 1)) (togglePlay s)) \<and>
         interpolatedPos (ticks (steps * (length (routeData s) - 1)) (togglePlay s))
           = PosRecord (lat (last (routeData s))) (lng (last (routeData s))) \<and>
         (\<exists>t. intervalRef (ticks (steps * (length (routeData s) - 1)) (togglePlay s)) = Some t
              \<and> step t = 0)"
proof -
  let ?p = "togglePlay s"
  let ?n = "length (routeData s)"
  have lt: "currentIndex s + 1 < ?n" using i0 n by simp
  note st = togglePlay_start [OF stopped lt]
  have w: "wf ?p" using r by (intro wf_togglePlay reachable_wf)
  have m: "0 < ?n - 1" using n by simp
  have b: "currentIndex ?p + (?n - 1) < length (routeData ?p)"
    using st(2,3) i0 n by simp
  have z: "step \<lparr> seg_start = routeData s ! currentIndex s,
      seg_end = routeData s ! (currentIndex s + 1), step = 0 \<rparr> = 0" by simp
  have ne: "routeData s \<noteq> []" using n by auto
  from ticks_segments [OF w st(1) z m b] st(2,3) i0 n
  show ?thesis by (simp add: last_conv_nth [OF ne])
qed

lemma tick_after_segment_start:
  assumes "wf s" and "intervalRef s = Some t" and "step t = 0"
  shows "currentIndex (tick s) = currentIndex s"
    and "interpolatedPos (tick s) =
           interp (routeData s ! currentIndex s) (routeData s ! (currentIndex s + 1)) 1"
  using assms by (simp_all add: tick_def commit_def Let_def steps_def wf_def)

section \<open>Concrete runs\<close>

lemma scenario_loaded:
  "load scenario_route init =
     \<lparr> routeData = scenario_route, currentIndex = 0,
       interpolatedPos = PosArray 17.40 78.49, isPlaying = False,
       intervalRef = None, loadPending = False \<rparr>"
  by (simp add: model_defs scenario_route_def)

lemma scenario_started:
  "run [Load scenario_route, TogglePlay] init =
     \<lparr> routeData = scenario_route, currentIndex = 0,
       interpolatedPos = PosArray 17.40 78.49, isPlaying = True,
       intervalRef = Some \<lparr> seg_start = scenario_route ! 0, seg_end = scenario_route ! 1,
                             step = 0 \<rparr>,
       loadPending = False \<rparr>"
  by (simp add: model_defs scenario_route_def)

lemma scenario_paused_at_end:
  "togglePlay (ticks 20 (togglePlay (load scenario_route init))) =
     \<lparr> routeData = scenario_route, currentIndex = 0,
       interpolatedPos = PosRecord 17.41 78.50, isPlaying = False,
       intervalRef = None, loadPending = False \<rparr>"
  by (simp add: model_defs scenario_route_def eval_nat_numeral)

lemma empty_loaded:
  "load [] init =
     \<lparr> routeData = [], currentIndex = 0,
       interpolatedPos = PosArray 17.4 78.495, isPlaying = False,
       intervalRef = None, loadPending = False \<rparr>"
  by (simp add: model_defs)

lemma three_started:
  "run [Load three_route, TogglePlay] init =
     \<lparr> routeData = three_route, currentIndex = 0,
       interpolatedPos = PosArray 17.4 78.495, isPlaying = True,
       intervalRef = Some \<lparr> seg_start = three_route ! 0, seg_end = three_route ! 1,
                             step = 0 \<rparr>,
       loadPending = False \<rparr>"
  by (simp add: model_defs three_route_def)

lemma three_segment_done:
  "currentIndex (ticks 20 (run [Load three_route, TogglePlay] init)) = 1"
proof -
  let ?s = "run [Load three_route, TogglePlay] init"
  have w: "wf ?s" by (intro reachable_wf reachable_run reach_init)
  have t: "intervalRef ?s = Some \<lparr> seg_start = three_route ! 0, seg_end = three_route ! 1,
      step = 0 \<rparr>" unfolding three_started by simp
  have "currentIndex (ticks steps ?s) = advance (length (routeData ?s)) (currentIndex ?s)"
    using ticks_segment [OF w t] by simp
  also have "\<dots> = 1" unfolding three_started by (simp add: advance_def three_route_def)
  finally show ?thesis by (simp add: steps_def)
qed

lemma three_mid_segment:
  "ticks 7 (ticks 20 (run [Load three_route, TogglePlay] init)) =
     \<lparr> routeData = three_route, currentIndex = 1,
       interpolatedPos = PosRecord (7 / 20) 1, isPlaying = True,
       intervalRef = Some \<lparr> seg_start = three_route ! 1, seg_end = three_route ! 2,
                             step = 7 \<rparr>,
       loadPending = False \<rparr>"
proof -
  let ?t0 = "\<lparr> seg_start = three_route ! 0, seg_end = three_route ! 1, step = 0 \<rparr>"
  let ?s0 = "\<lparr> routeData = three_route, currentIndex = 0,
       interpolatedPos = PosArray 17.4 78.495, isPlaying = True,
       intervalRef = Some ?t0, loadPending = False \<rparr>"
  let ?t1 = "\<lparr> seg_start = three_route ! 1, seg_end = three_route ! 2, step = 0 \<rparr>"
  let ?s1 = "\<lparr> routeData = three_route, currentIndex = 1,
       interpolatedPos = PosRecord 0 1, isPlaying = True,
       intervalRef = Some ?t1, loadPending = False \<rparr>"
  have w: "wf ?s0" by (simp add: wf_def three_route_def steps_def)
  have "ticks steps ?s0 = ?s1"
    by (subst ticks_segment_state [where t = ?t0, OF w])
       (simp_all add: advance_def three_route_def)
  then have s20: "ticks 20 ?s0 = ?s1" by (simp add: steps_def)
  have "ticks 7 ?s1 = ?s1\<lparr> interpolatedPos := interp (seg_start ?t1) (seg_end ?t1) (step ?t1 + 7),
      intervalRef := Some (?t1\<lparr> step := step ?t1 + 7 \<rparr>) \<rparr>"
    by (rule ticks_within) (simp_all add: steps_def)
  then show ?thesis
    unfolding three_started s20 by (simp add: interp_def three_route_def steps_def)
qed

lemma stationary_after_two_segments:
  "ticks 40 (run [Load stationary_route, TogglePlay] init) =
     \<lparr> routeData = stationary_route, currentIndex = 2,
       interpolatedPos = PosRecord 0 1, isPlaying = True,
       intervalRef = Some \<lparr> seg_start = stationary_route ! 2, seg_end = stationary_route ! 3,
                             step = 0 \<rparr>,
       loadPending = False \<rparr>"
  by (simp add: model_defs stationary_route_def eval_nat_numeral)

section \<open>The rounding model\<close>

text \<open>
  The rounding model is what its name says: \<open>ilog2\<close> is the binary exponent,
  \<open>rne\<close> is within one half of its argument, and \<open>fl x\<close> is a multiple of the
  quantum of \<open>x\<close> at distance at most half a quantum from \<open>x\<close>.
\<close>

lemma pow2_powi: "pow2 e = 2 powi e"
  by (simp add: pow2_def power_int_def inverse_eq_divide power_one_over)

lemma pow2_pos: "0 < pow2 e"
  by (simp add: pow2_powi)

lemma pow2_add: "pow2 (a + b) = pow2 a * pow2 b"
  by (simp add: pow2_powi power_int_add)

lemma rne_error: "\<bar>of_int (rne x) - x\<bar> \<le> 1 / 2"
proof -
  have "of_int \<lfloor>x\<rfloor> \<le> x" "x < of_int \<lfloor>x\<rfloor> + 1" by linarith+
  then show ?thesis
    by (auto simp: rne_def Let_def abs_le_iff)
qed

lemma ilog2_bounds:
  assumes "0 < x"
  shows "pow2 (ilog2 x) \<le> x \<and> x < pow2 (ilog2 x + 1)"
proof -
  obtain a b where q: "quotient_of x = (a, b)" by (cases "quotient_of x")
  then have b: "0 < b" by (rule quotient_of_denom_pos)
  have x: "x = of_int a / of_int b" using q by (rule quotient_of_div)
  have a: "0 < a" using assms b x by (simp add: zero_less_divide_iff)
  define la lb where "la = bitlen a" and "lb = bitlen b"
  have la: "1 \<le> la" "2 ^ nat (la - 1) \<le> a" "a < 2 ^ nat la"
    using bitlen_bounds [OF a] a by (auto simp: la_def bitlen_alt_def)
  have lb: "1 \<le> lb" "2 ^ nat (lb - 1) \<le> b" "b < 2 ^ nat lb"
    using bitlen_bounds [OF b] b by (auto simp: lb_def bitlen_alt_def)
  have int_pow2: "pow2 k = of_int (2 ^ nat k)" if "0 \<le> k" for k
    using that by (simp add: pow2_def)
  have ra: "pow2 (la - 1) \<le> of_int a" "of_int a < pow2 la"
    using la by (simp_all only: int_pow2 of_int_le_iff of_int_less_iff)
  have rb: "pow2 (lb - 1) \<le> of_int b" "of_int b < pow2 lb"
    using lb by (simp_all only: int_pow2 of_int_le_iff of_int_less_iff)
  have bpos: "(0::rat) < of_int b" using b by simp
  have up: "x < pow2 (la - lb + 1)"
  proof -
    have "of_int a < pow2 la" by (rule ra)
    also have "pow2 la = pow2 (la - lb + 1) * pow2 (lb - 1)"
      by (simp flip: pow2_add)
    also have "\<dots> \<le> pow2 (la - lb + 1) * of_int b"
      using rb(1) pow2_pos [of "la - lb + 1"] by (simp add: mult_left_mono)
    finally show ?thesis using bpos by (simp add: x pos_divide_less_eq)
  qed
  have low: "pow2 (la - lb - 1) \<le> x"
  proof -
    have "pow2 (la - lb - 1) * of_int b \<le> pow2 (la - lb - 1) * pow2 lb"
      using rb(2) pow2_pos [of "la - lb - 1"] by (simp add: mult_left_mono)
    also have "\<dots> = pow2 (la - 1)" by (simp flip: pow2_add)
    also have "\<dots> \<le> of_int a" by (rule ra)
    finally show ?thesis using bpos by (simp add: x pos_le_divide_eq)
  qed
  have i: "ilog2 x = (if pow2 (la - lb) \<le> x then la - lb else la - lb - 1)"
    by (simp add: ilog2_def q la_def lb_def)
  show ?thesis
  proof (cases "pow2 (la - lb) \<le> x")
    case True
    then show ?thesis using up by (simp add: i)
  next
    case False
    then show ?thesis using low by (simp add: i)
  qed
qed

lemma fl_nearest:
  assumes "fl x = Some r" and "x \<noteq> 0"
  shows "\<exists>n. r = of_int n * pow2 (max (ilog2 \<bar>x\<bar> - 52) (- 1074)) \<and>
             \<bar>r - x\<bar> \<le> pow2 (max (ilog2 \<bar>x\<bar> - 52) (- 1074)) / 2"
proof -
  define q where "q = max (ilog2 \<bar>x\<bar> - 52) (- 1074)"
  have r: "r = of_int (rne (x / pow2 q)) * pow2 q"
    using assms by (auto simp: fl_def Let_def q_def split: if_splits)
  have p: "0 < pow2 q" by (rule pow2_pos)
  have "r - x = (of_int (rne (x / pow2 q)) - x / pow2 q) * pow2 q"
    using p by (simp add: r field_simps)
  then have "\<bar>r - x\<bar> = \<bar>of_int (rne (x / pow2 q)) - x / pow2 q\<bar> * pow2 q"
    using p by (simp add: abs_mult)
  also have "\<dots> \<le> (1 / 2) * pow2 q"
    using rne_error [of "x / pow2 q"] p by (intro mult_right_mono) simp_all
  finally have "\<bar>r - x\<bar> \<le> pow2 q / 2" by simp
  then show ?thesis using r unfolding q_def by blast
qed

lemma fl_zero: "fl 0 = Some 0"
  by (simp add: fl_def)

section \<open>Playback to the final waypoint\<close>

text \<open>
  The variant of the component stops at the final waypoint: the tick that reaches the
  last index leaves no interval armed, and a further tick changes nothing.
\<close>

lemma halts_at_final_waypoint_p0:
  assumes "intervalRef_p0 s" and "currentIndex_p0 s + 2 = length (routeData_p0 s)"
  shows "currentIndex_p0 (tick_p0 s) = length (routeData_p0 s) - 1 \<and>
         \<not> intervalRef_p0 (tick_p0 s) \<and> tick_p0 (tick_p0 s) = tick_p0 s"
  using assms by (simp add: tick_p0_def commit_p0_def animation_effect_p0_def)

text \<open>
  C1: after Start on a route with \<open>N \<ge> 2\<close> waypoints, \<open>steps * (N - 1)\<close> ticks
  reach \<open>currentIndex = N - 2\<close> with the position on the final waypoint. The claim
  continues that every further tick is a no-op with the marker pinned there. The
  component does not do that: the callback resets \<open>step\<close> to 0 and the interval stays
  armed, so the next tick keeps the index and moves the marker back to the first
  twentieth of the last segment.
\<close>

theorem tick_after_final_waypoint_replays:
  assumes "reachable s" and "\<not> isPlaying s" and "currentIndex s = 0"
    and "2 \<le> length (routeData s)"
  shows "currentIndex (ticks (steps * (length (routeData s) - 1)) (togglePlay s))
           = length (routeData s) - 2 \<and>
         interpolatedPos (ticks (steps * (length (routeData s) - 1)) (togglePlay s))
           = PosRecord (lat (last (routeData s))) (lng (last (routeData s))) \<and>
         currentIndex (tick (ticks (steps * (length (routeData s) - 1)) (togglePlay s)))
           = length (routeData s) - 2 \<and>
         interpolatedPos (tick (ticks (steps * (length (routeData s) - 1)) (togglePlay s)))
           = interp (routeData s ! (length (routeData s) - 2))
                    (routeData s ! (length (routeData s) - 1)) 1"
proof -
  let ?f = "ticks (steps * (length (routeData s) - 1)) (togglePlay s)"
  note fin = playback_reaches_final_waypoint [OF assms]
  then obtain t where t: "intervalRef ?f = Some t" "step t = 0" by blast
  have w: "wf ?f" using assms(1) by (intro wf_ticks wf_togglePlay reachable_wf)
  have "length (routeData s) - 2 + 1 = length (routeData s) - 1" using assms(4) by simp
  with tick_after_segment_start [OF w t] fin show ?thesis by simp
qed

theorem tick_after_final_waypoint_replays_witness:
  "reachable (load scenario_route init) \<and> \<not> isPlaying (load scenario_route init) \<and>
   currentIndex (load scenario_route init) = 0 \<and>
   2 \<le> length (routeData (load scenario_route init)) \<and>
   currentIndex (ticks 20 (togglePlay (load scenario_route init))) = 0 \<and>
   interpolatedPos (ticks 20 (togglePlay (load scenario_route init)))
     = PosRecord 17.41 78.50 \<and>
   currentIndex (ticks 21 (togglePlay (load scenario_route init))) = 0 \<and>
   interpolatedPos (ticks 21 (togglePlay (load scenario_route init)))
     = PosRecord 17.4005 78.4905"
proof -
  let ?s = "load scenario_route init"
  have "reachable (fire (Load scenario_route) init)" using reach_init by (rule reach_fire)
  then have r: "reachable ?s" by (simp add: init_def)
  have a: "\<not> isPlaying ?s" "currentIndex ?s = 0" "2 \<le> length (routeData ?s)"
    unfolding scenario_loaded by (simp_all add: scenario_route_def)
  have n: "steps * (length (routeData ?s) - 1) = 20"
    unfolding scenario_loaded by (simp add: scenario_route_def steps_def)
  have e: "ticks 21 (togglePlay ?s) = tick (ticks 20 (togglePlay ?s))"
    using ticks_Suc_right [of 20 "togglePlay ?s"] by simp
  have l2: "length (routeData ?s) - 2 = 0"
    unfolding scenario_loaded by (simp add: scenario_route_def)
  have v: "PosRecord (lat (last (routeData ?s))) (lng (last (routeData ?s)))
      = PosRecord 17.41 78.50"
    "interp (routeData ?s ! (length (routeData ?s) - 2))
            (routeData ?s ! (length (routeData ?s) - 1)) 1 = PosRecord 17.4005 78.4905"
    unfolding scenario_loaded by (simp_all add: scenario_route_def interp_def steps_def)
  note th0 = tick_after_final_waypoint_replays [OF r a, unfolded n v]
  note th = th0 [unfolded l2, folded e]
  from th r a show ?thesis by blast
qed

section \<open>The route returned by fetchRouteData\<close>

lemma those_map_to_waypoint_None:
  "those (map to_waypoint ps) = None \<longleftrightarrow> RawNull \<in> set ps"
proof (induction ps)
  case Nil
  then show ?case by simp
next
  case (Cons p ps)
  then show ?case by (cases p) (auto split: option.splits)
qed

lemma those_map_to_waypoint_length:
  "those (map to_waypoint ps) = Some ws \<Longrightarrow> length ws = length ps"
proof (induction ps arbitrary: ws)
  case Nil
  then show ?case by simp
next
  case (Cons p ps)
  then show ?case by (cases p) (auto split: option.splits)
qed

lemma those_map_to_waypoint_nth:
  "those (map to_waypoint ps) = Some ws \<Longrightarrow> i < length ps \<Longrightarrow>
   ps ! i = RawPoint la lo ts \<Longrightarrow> ws ! i = \<lparr> lat = la, lng = lo, timestamp = ts \<rparr>"
proof (induction ps arbitrary: ws i)
  case Nil
  then show ?case by simp
next
  case (Cons p ps)
  then show ?case
    by (cases p; cases i) (auto split: option.splits)
qed

lemma length_fallback: "length (fallback decode clock) = length (decode encoded)"
  by (simp add: fallback_def)

lemma nth_fallback:
  assumes "i < length (decode encoded)"
  shows "fallback decode clock ! i =
           \<lparr> lat = fst (decode encoded ! i), lng = snd (decode encoded ! i),
             timestamp = clock i \<rparr>"
  using assms by (simp add: fallback_def nth_enumerate_eq split: prod.splits)

text \<open>
  The decoder's loop ends because the string is used up, not because the fuel is: any
  fuel of at least the length of the string gives the same result.
\<close>

lemma read_value_shorter:
  "length (snd (read_value (c # cs) shift result)) \<le> length cs"
proof (induction cs arbitrary: c shift result)
  case Nil
  then show ?case by (simp add: Let_def)
next
  case (Cons d ds)
  have "length (snd (read_value (d # ds) sh r)) \<le> length (d # ds)" for sh r
    using Cons.IH [of d sh r] by simp
  then show ?case by (simp add: Let_def)
qed

lemma read_value_no_longer: "length (snd (read_value str shift result)) \<le> length str"
proof (cases str)
  case Nil
  then show ?thesis by simp
next
  case (Cons c cs)
  then show ?thesis using read_value_shorter [of c cs shift result] by simp
qed

lemma decode_loop_enough_fuel:
  "length str \<le> m \<Longrightarrow> length str \<le> n \<Longrightarrow>
   decode_loop m str la lo = decode_loop n str la lo"
proof (induction m arbitrary: n str la lo)
  case 0
  then show ?case by (cases n) simp_all
next
  case (Suc m)
  show ?case
  proof (cases str)
    case Nil
    then show ?thesis by (cases n) simp_all
  next
    case (Cons c cs)
    then obtain k where n: "n = Suc k" using Suc.prems(2) by (cases n) auto
    obtain r1 rest1 where r1: "read_value (c # cs) 1 0 = (r1, rest1)"
      by (cases "read_value (c # cs) 1 0")
    obtain r2 rest2 where r2: "read_value rest1 1 0 = (r2, rest2)"
      by (cases "read_value rest1 1 0")
    have "length rest1 \<le> length cs"
      using read_value_shorter [of c cs 1 0] r1 by simp
    moreover have "length rest2 \<le> length rest1"
      using read_value_no_longer [of rest1 1 0] r2 by simp
    ultimately have l: "length rest2 \<le> length cs" by simp
    then have f: "length rest2 \<le> m" "length rest2 \<le> k"
      using Suc.prems Cons n by simp_all
    have "decode_loop m rest2 a b = decode_loop k rest2 a b" for a b
      using f by (rule Suc.IH)
    then show ?thesis by (simp add: Cons n r1 r2 Let_def del: read_value.simps)
  qed
qed

lemma polyline_decode_fuel:
  "length str \<le> fuel \<Longrightarrow> decode_loop fuel str 0 0 = polyline_decode str"
  unfolding polyline_decode_def by (rule decode_loop_enough_fuel) simp_all

lemma polyline_decode_encoded_length: "length (polyline_decode encoded) = 16"
  by code_simp

lemma polyline_decode_encoded_first: "polyline_decode encoded ! 0 = (42.05946, 92.5116)"
  by code_simp

text \<open>
  C2, as amended: when the primary path throws (\<open>fetch\<close> rejects, the body is not
  JSON, the parsed value is not an array, or an element is \<open>null\<close>),
  \<open>fetchRouteData\<close> returns the decoded embedded polyline, one waypoint per decoded
  point, the \<open>i\<close>-th stamped with the \<open>i\<close>-th reading of the clock; it is non-empty
  when the decoder yields a point. A primary array without \<open>null\<close> is returned
  converted element by element, \<open>latitude\<close> to \<open>lat\<close>, \<open>longitude\<close> to \<open>lng\<close> and
  \<open>timestamp\<close> to \<open>timestamp\<close>, and nothing else; in particular an empty primary array
  gives the empty route, without fallback.
\<close>

theorem fetchRouteData_falls_back_on_exception:
  "(res = FetchRejected \<or> res = BodyNotJson \<or> res = JsonNotArray \<or>
      (\<exists>ps. res = JsonArray ps \<and> RawNull \<in> set ps)
    \<longrightarrow> fetchRouteData decode clock res = fallback decode clock) \<and>
   length (fallback decode clock) = length (decode encoded) \<and>
   (\<forall>i < length (decode encoded).
      fallback decode clock ! i =
        \<lparr> lat = fst (decode encoded ! i), lng = snd (decode encoded ! i),
          timestamp = clock i \<rparr>) \<and>
   (RawNull \<notin> set ps \<longrightarrow>
      length (fetchRouteData decode clock (JsonArray ps)) = length ps \<and>
      (\<forall>i < length ps. \<forall>la lo ts.
         ps ! i = RawPoint la lo ts \<longrightarrow>
         fetchRouteData decode clock (JsonArray ps) ! i
           = \<lparr> lat = la, lng = lo, timestamp = ts \<rparr>)) \<and>
   fetchRouteData decode clock (JsonArray []) = []"
proof -
  have "fetchRouteData decode clock res = fallback decode clock"
    if "res = FetchRejected \<or> res = BodyNotJson \<or> res = JsonNotArray \<or>
      (\<exists>ps. res = JsonArray ps \<and> RawNull \<in> set ps)"
    using that
    by (auto simp: fetchRouteData_def those_map_to_waypoint_None [THEN iffD2])
  moreover have "length (fetchRouteData decode clock (JsonArray ps)) = length ps \<and>
      (\<forall>i < length ps. \<forall>la lo ts.
         ps ! i = RawPoint la lo ts \<longrightarrow>
         fetchRouteData decode clock (JsonArray ps) ! i
           = \<lparr> lat = la, lng = lo, timestamp = ts \<rparr>)"
    if "RawNull \<notin> set ps"
  proof -
    from that obtain ws where ws: "those (map to_waypoint ps) = Some ws"
      using those_map_to_waypoint_None [of ps] by auto
    then have r: "fetchRouteData decode clock (JsonArray ps) = ws"
      by (simp add: fetchRouteData_def)
    show ?thesis unfolding r
      using those_map_to_waypoint_length [OF ws] those_map_to_waypoint_nth [OF ws]
      by blast
  qed
  moreover have "fetchRouteData decode clock (JsonArray []) = []"
    by (simp add: fetchRouteData_def)
  ultimately show ?thesis
    using length_fallback [of decode clock] nth_fallback [of _ decode clock] by blast
qed

theorem fetchRouteData_falls_back_on_exception_witness:
  "(0::nat) < length (polyline_decode encoded) \<and>
   RawNull \<notin> set [RawPoint 17.40 78.49 5] \<and>
   (0::nat) < length [RawPoint 17.40 78.49 5] \<and>
   length (fetchRouteData polyline_decode sample_clock FetchRejected) = 16 \<and>
   fetchRouteData polyline_decode sample_clock FetchRejected ! 0 =
     \<lparr> lat = 42.05946, lng = 92.5116, timestamp = 1762041600000 \<rparr> \<and>
   fetchRouteData polyline_decode sample_clock (JsonArray [RawPoint 17.40 78.49 5])
     = [\<lparr> lat = 17.40, lng = 78.49, timestamp = 5 \<rparr>]"
proof -
  let ?ps = "[RawPoint 17.40 78.49 5]"
  note th = fetchRouteData_falls_back_on_exception
    [of FetchRejected polyline_decode sample_clock ?ps]
  have z: "(0::nat) < length (polyline_decode encoded)"
    by (simp add: polyline_decode_encoded_length)
  have n: "RawNull \<notin> set ?ps" "(0::nat) < length ?ps" "?ps ! 0 = RawPoint 17.40 78.49 5"
    by simp_all
  from th have f: "fetchRouteData polyline_decode sample_clock FetchRejected
      = fallback polyline_decode sample_clock" by blast
  from th z have "fallback polyline_decode sample_clock ! 0 =
      \<lparr> lat = fst (polyline_decode encoded ! 0), lng = snd (polyline_decode encoded ! 0),
        timestamp = sample_clock 0 \<rparr>" by blast
  then have fst0: "fallback polyline_decode sample_clock ! 0 =
      \<lparr> lat = 42.05946, lng = 92.5116, timestamp = 1762041600000 \<rparr>"
    by (simp add: polyline_decode_encoded_first sample_clock_def)
  from th have l: "length (fallback polyline_decode sample_clock) = 16"
    by (simp add: polyline_decode_encoded_length)
  from th n have p: "length (fetchRouteData polyline_decode sample_clock (JsonArray ?ps))
      = length ?ps"
    "fetchRouteData polyline_decode sample_clock (JsonArray ?ps) ! 0
      = \<lparr> lat = 17.40, lng = 78.49, timestamp = 5 \<rparr>"
    by blast+
  have "fetchRouteData polyline_decode sample_clock (JsonArray ?ps)
      = [\<lparr> lat = 17.40, lng = 78.49, timestamp = 5 \<rparr>]"
    using p by (cases "fetchRouteData polyline_decode sample_clock (JsonArray ?ps)") auto
  then show ?thesis using z n f fst0 l by simp
qed

text \<open>
  The claim as stated fails: on an empty primary array the result is empty, although
  the fallback route would have sixteen points.
\<close>

theorem empty_primary_result_counterexample:
  "fetchRouteData polyline_decode sample_clock (JsonArray []) = [] \<and>
   fallback polyline_decode sample_clock \<noteq> []"
proof -
  have "length (fallback polyline_decode sample_clock) = 16"
    by (simp add: length_fallback polyline_decode_encoded_length)
  then have "fallback polyline_decode sample_clock \<noteq> []" by auto
  then show ?thesis by (simp add: fetchRouteData_def)
qed

section \<open>Heading on a zero-length segment\<close>

lemma js_sub_self: "js_finite n \<Longrightarrow> js_sub n n = JsNum 0"
  by (cases n) simp_all

lemma atan2_real_origin: "atan2_real 0 0 = 0"
  by (simp add: atan2_real_def)

lemma heading_of_zero_differences:
  "js_div_pos (js_mul_pos (Math_atan2 (JsNum 0) (JsNum 0)) 180) pi = JsNum 0"
  by (simp add: atan2_real_origin)

text \<open>
  C3, as amended: for consecutive waypoints whose coordinates are finite and identical,
  the sign of a zero included, \<open>getRotationAngle\<close> returns 0, the value of
  \<open>Math.atan2(0, 0)\<close>, not NaN, and the rotation effect of either variant then sets
  the marker's angle to 0 whatever it was before: no heading is carried forward.
\<close>

theorem zero_length_segment_heading_is_zero:
  assumes "js_lat prev = js_lat next" and "js_lng prev = js_lng next"
    and "js_finite (js_lat prev)" and "js_finite (js_lng prev)"
  shows "getRotationAngle prev next = JsNum 0 \<and>
         (marker \<and> 0 < idx \<and> idx < length route \<and>
          route ! (idx - 1) = prev \<and> route ! idx = next
          \<longrightarrow> rotation_effect marker idx route angle = Some (JsNum 0)) \<and>
         (0 < idx \<and> idx < length route \<and>
          route ! (idx - 1) = prev \<and> route ! idx = next
          \<longrightarrow> rotation_effect_p0 idx route angle = Some (JsNum 0))"
proof -
  have d: "js_sub (js_lng next) (js_lng prev) = JsNum 0"
    "js_sub (js_lat next) (js_lat prev) = JsNum 0"
    using assms by (simp_all add: js_sub_self)
  have g: "getRotationAngle prev next = JsNum 0"
    by (simp add: getRotationAngle_def d atan2_real_origin)
  moreover have "rotation_effect marker idx route angle = Some (JsNum 0)"
    if "marker" "0 < idx" "idx < length route"
      "route ! (idx - 1) = prev" "route ! idx = next"
    using that g by (auto simp: rotation_effect_def item_def)
  moreover have "rotation_effect_p0 idx route angle = Some (JsNum 0)"
    if "0 < idx" "idx < length route"
      "route ! (idx - 1) = prev" "route ! idx = next"
    using that d
    by (auto simp: rotation_effect_p0_def item_def atan2_real_origin)
  ultimately show ?thesis by blast
qed

theorem zero_length_segment_heading_is_zero_witness:
  "js_lat (js_of (stationary_route ! 1)) = js_lat (js_of (stationary_route ! 2)) \<and>
   js_lng (js_of (stationary_route ! 1)) = js_lng (js_of (stationary_route ! 2)) \<and>
   js_finite (js_lat (js_of (stationary_route ! 1))) \<and>
   js_finite (js_lng (js_of (stationary_route ! 1))) \<and>
   marker_rendered (ticks 40 (run [Load stationary_route, TogglePlay] init)) \<and>
   currentIndex (ticks 40 (run [Load stationary_route, TogglePlay] init)) = 2 \<and>
   routeData (ticks 40 (run [Load stationary_route, TogglePlay] init)) = stationary_route \<and>
   routeData_p0 stationary_p0 = stationary_route \<and> currentIndex_p0 stationary_p0 = 2 \<and>
   getRotationAngle (js_of (stationary_route ! 1)) (js_of (stationary_route ! 2)) = JsNum 0 \<and>
   rotation_effect True 2 (map js_of stationary_route) (Some (JsNum 90)) = Some (JsNum 0) \<and>
   rotation_effect_p0 2 (map js_of stationary_route) (Some (JsNum 90)) = Some (JsNum 0)"
proof -
  let ?s = "ticks 40 (run [Load stationary_route, TogglePlay] init)"
  let ?r = "map js_of stationary_route"
  have c: "js_lat (js_of (stationary_route ! 1)) = js_lat (js_of (stationary_route ! 2))"
    "js_lng (js_of (stationary_route ! 1)) = js_lng (js_of (stationary_route ! 2))"
    "js_finite (js_lat (js_of (stationary_route ! 1)))"
    "js_finite (js_lng (js_of (stationary_route ! 1)))"
    by (simp_all add: stationary_route_def js_of_def)
  have m: "marker_rendered ?s" "currentIndex ?s = 2" "routeData ?s = stationary_route"
    unfolding stationary_after_two_segments
    by (simp_all add: marker_rendered_def stationary_route_def)
  have u: "routeData_p0 stationary_p0 = stationary_route" "currentIndex_p0 stationary_p0 = 2"
    by (simp_all add: stationary_p0_def)
  have i: "True" "(0::nat) < 2" "2 < length ?r"
    "?r ! (2 - 1) = js_of (stationary_route ! 1)" "?r ! 2 = js_of (stationary_route ! 2)"
    by (simp_all add: stationary_route_def)
  from zero_length_segment_heading_is_zero
    [OF c, where marker = True and idx = 2 and route = ?r and angle = "Some (JsNum 90)"]
    c m u i
  show ?thesis by blast
qed

text \<open>
  The claim as stated fails: on a route whose second segment has length zero the
  marker's angle is 90 after the first segment and 0, not 90, after the second.
\<close>

theorem heading_not_carried_forward_counterexample:
  "js_lat (js_of (stationary_route ! 1)) = js_lat (js_of (stationary_route ! 2)) \<and>
   js_lng (js_of (stationary_route ! 1)) = js_lng (js_of (stationary_route ! 2)) \<and>
   getRotationAngle (js_of (stationary_route ! 0)) (js_of (stationary_route ! 1)) = JsNum 90 \<and>
   getRotationAngle (js_of (stationary_route ! 1)) (js_of (stationary_route ! 2)) = JsNum 0 \<and>
   run_rotation (Load stationary_route # TogglePlay # replicate 20 Tick) init None
     = Some (JsNum 90) \<and>
   run_rotation (Load stationary_route # TogglePlay # replicate 40 Tick) init None
     = Some (JsNum 0)"
  by (simp add: model_defs stationary_route_def rotation_commit_def rotation_effect_def
      marker_rendered_def getRotationAngle_def atan2_real_def js_of_def eval_nat_numeral)

text \<open>
  Why the amended claim asks for finite coordinates that agree in the sign of zero: for
  any pair equal under \<open>===\<close> the heading is one of \<open>0\<close>, \<open>-0\<close>, \<open>180\<close>, \<open>-180\<close> and
  NaN. From latitude \<open>+0\<close> to latitude \<open>-0\<close> it is 180, and on an infinite coordinate it
  is NaN.
\<close>

lemma heading_of_equal_pair:
  assumes "js_eq (js_lat prev) (js_lat next)" and "js_eq (js_lng prev) (js_lng next)"
  shows "getRotationAngle prev next \<in> {JsNum 0, JsNegZero, JsNum 180, JsNum (- 180), JsNaN}"
proof -
  have z: "js_sub b a \<in> {JsNum 0, JsNegZero, JsNaN}" if "js_eq a b" for a b
    using that by (cases a; cases b) auto
  from z [OF assms(1)] z [OF assms(2)] show ?thesis
    by (auto simp: getRotationAngle_def atan2_real_def)
qed

lemma heading_across_signed_zero:
  "js_eq (JsNum 0) JsNegZero \<and>
   getRotationAngle \<lparr> js_lat = JsNum 0, js_lng = JsNum l \<rparr>
                    \<lparr> js_lat = JsNegZero, js_lng = JsNum l \<rparr> = JsNum 180"
  by (simp add: getRotationAngle_def)

lemma heading_of_infinite_coordinate:
  "js_eq JsPosInf JsPosInf \<and>
   getRotationAngle \<lparr> js_lat = JsPosInf, js_lng = l \<rparr>
                    \<lparr> js_lat = JsPosInf, js_lng = l \<rparr> = JsNaN"
  by (cases "js_sub l l") (simp_all add: getRotationAngle_def)

section \<open>Interpolated position\<close>

lemma interp_position_spec:
  "interp (route ! i) (route ! (i + 1)) k = position_spec route i (real k / real steps)"
  by (simp add: interp_def position_spec_def)

text \<open>
  C4: while an interval is armed, after \<open>k\<close> further ticks within the segment the
  stored position is the linear interpolation of the specification between
  \<open>route[currentIndex]\<close> and \<open>route[currentIndex + 1]\<close> at progress
  \<open>step / steps\<close>, which lies in \<open>[0, 1]\<close>. On the scenario route, 10 ticks after
  Start give the midpoint \<open>(17.405, 78.495)\<close>.
\<close>

theorem position_is_linear_interpolation:
  assumes "reachable s" and "intervalRef s = Some t" and "0 < k" and "step t + k \<le> steps"
  shows "currentIndex s + 1 < length (routeData s) \<and>
         0 \<le> real (step t + k) / real steps \<and> real (step t + k) / real steps \<le> 1 \<and>
         interpolatedPos (ticks k s)
           = position_spec (routeData s) (currentIndex s) (real (step t + k) / real steps)"
proof -
  from reachable_wf [OF assms(1)] assms(2)
  have inv: "currentIndex s + 1 < length (routeData s)"
    "seg_start t = routeData s ! currentIndex s"
    "seg_end t = routeData s ! (currentIndex s + 1)"
    by (simp_all add: wf_def)
  have "interpolatedPos (ticks k s) = interp (seg_start t) (seg_end t) (step t + k)"
    using assms(2,4,3) by (rule interpolatedPos_ticks)
  then have "interpolatedPos (ticks k s)
      = position_spec (routeData s) (currentIndex s) (real (step t + k) / real steps)"
    by (simp only: inv interp_position_spec)
  moreover have "real (step t + k) / real steps \<le> 1"
    using assms(4) by (simp add: steps_def)
  ultimately show ?thesis using inv(1) by simp
qed

theorem position_is_linear_interpolation_witness:
  "reachable (run [Load scenario_route, TogglePlay] init) \<and>
   intervalRef (run [Load scenario_route, TogglePlay] init)
     = Some \<lparr> seg_start = scenario_route ! 0, seg_end = scenario_route ! 1, step = 0 \<rparr> \<and>
   (0::nat) < 10 \<and> 0 + 10 \<le> steps \<and>
   interpolatedPos (ticks 10 (run [Load scenario_route, TogglePlay] init))
     = PosRecord 17.405 78.495"
proof -
  let ?s = "run [Load scenario_route, TogglePlay] init"
  let ?t = "\<lparr> seg_start = scenario_route ! 0, seg_end = scenario_route ! 1, step = 0 \<rparr>"
  have r: "reachable ?s" by (rule reachable_run [OF reach_init])
  have t: "intervalRef ?s = Some ?t" unfolding scenario_started by simp
  have k: "(0::nat) < 10" by simp
  have b: "step ?t + 10 \<le> steps" by (simp add: steps_def)
  have "interpolatedPos (ticks 10 ?s)
      = position_spec (routeData ?s) (currentIndex ?s) (real (step ?t + 10) / real steps)"
    using position_is_linear_interpolation [OF r t k b] by blast
  also have "\<dots> = PosRecord 17.405 78.495"
    unfolding scenario_started by (simp add: position_spec_def scenario_route_def steps_def)
  finally show ?thesis using r t b by simp
qed

text \<open>
  The same scenario under binary64 evaluation, for the latitude: the doubles nearest to
  17.40 and 17.41 give, after 10 ticks, a value within \<open>1e-12\<close> of 17.405, and after
  20 ticks exactly the end coordinate.
\<close>

lemma binary64_scenario:
  "fl (174 / 10) = Some (2448832297382707 / 140737488355328)"
  "fsub (4900479344532521 / 281474976710656) (2448832297382707 / 140737488355328) \<noteq> None"
  by code_simp+

lemma binary64_scenario_ticks:
  "fl (1741 / 100) = Some (4900479344532521 / 281474976710656)"
  "interp_binary64 (2448832297382707 / 140737488355328)
                   (4900479344532521 / 281474976710656) 10
     = Some (612383996206121 / 35184372088832)"
  "\<bar>612383996206121 / 35184372088832 - 17405 / 1000\<bar> < (1 / 10 ^ 12 :: rat)"
  "interp_binary64 (2448832297382707 / 140737488355328)
                   (4900479344532521 / 281474976710656) 20
     = Some (4900479344532521 / 281474976710656)"
  by code_simp+

section \<open>Exactness at the ends of a segment\<close>

text \<open>
  C5, as amended: at progress 0 the binary64 evaluation returns the start coordinate
  exactly, whenever the start is a double and the difference to the end is finite. At
  progress 1 the position is the end waypoint in exact arithmetic; under binary64
  evaluation it need not be.
\<close>

theorem segment_ends_exactness:
  "(fl a = Some a \<and> fsub b a \<noteq> None \<longrightarrow> interp_binary64 a b 0 = Some a) \<and>
   interp u v 0 = PosRecord (lat u) (lng u) \<and>
   interp u v steps = PosRecord (lat v) (lng v)"
proof -
  have "interp_binary64 a b 0 = Some a" if a: "fl a = Some a" and d: "fsub b a \<noteq> None"
  proof -
    from d obtain x where x: "fsub b a = Some x" by auto
    show ?thesis
      by (simp add: interp_binary64_def x fmul_def fdiv_def fadd_def fl_zero steps_def a)
  qed
  then show ?thesis by (simp add: interp_zero interp_steps)
qed

theorem segment_ends_exactness_witness:
  "fl (2448832297382707 / 140737488355328) = Some (2448832297382707 / 140737488355328) \<and>
   fsub (4900479344532521 / 281474976710656) (2448832297382707 / 140737488355328) \<noteq> None \<and>
   interp_binary64 (2448832297382707 / 140737488355328)
                   (4900479344532521 / 281474976710656) 0
     = Some (2448832297382707 / 140737488355328)"
proof -
  have a: "fl (2448832297382707 / 140737488355328) = Some (2448832297382707 / 140737488355328)"
    by code_simp
  note d = binary64_scenario(2)
  from segment_ends_exactness
    [of "2448832297382707 / 140737488355328" "4900479344532521 / 281474976710656"] a d
  show ?thesis by blast
qed

text \<open>
  The claim as stated fails: from coordinate 0 to the double nearest to 0.007, the
  binary64 evaluation at step 20 of 20 gives 0.007000000000000001, one unit in the
  last place above the end coordinate.
\<close>

theorem end_not_exact_binary64_counterexample:
  "fl 0 = Some 0 \<and>
   fl (7 / 1000) = Some (8070450532247929 / 1152921504606846976) \<and>
   interp_binary64 0 (8070450532247929 / 1152921504606846976) 20
     = Some (4035225266123965 / 576460752303423488) \<and>
   (4035225266123965 / 576460752303423488 :: rat) \<noteq> 8070450532247929 / 1152921504606846976"
  by code_simp

section \<open>Reset\<close>

text \<open>
  C6: from any reachable state, Reset gives index 0, not playing and no armed
  interval, keeps the route, and puts the position on \<open>route[0]\<close> when the route is
  non-empty; an interval armed by the next Start begins at step 0. In the variant of
  the component, Reset gives index 0, not playing, and the marker on \<open>route[0]\<close>.
\<close>

theorem reset_restores_initial_state:
  assumes "reachable s"
  shows "currentIndex (resetSimulation s) = 0 \<and>
         \<not> isPlaying (resetSimulation s) \<and>
         intervalRef (resetSimulation s) = None \<and>
         routeData (resetSimulation s) = routeData s \<and>
         (routeData s \<noteq> [] \<longrightarrow>
            interpolatedPos (resetSimulation s)
              = PosRecord (lat (routeData s ! 0)) (lng (routeData s ! 0))) \<and>
         (\<forall>t. intervalRef (togglePlay (resetSimulation s)) = Some t \<longrightarrow> step t = 0) \<and>
         (\<forall>u. currentIndex_p0 (resetSimulation_p0 u) = 0 \<and>
              \<not> isPlaying_p0 (resetSimulation_p0 u) \<and>
              currentPosition_p0 (resetSimulation_p0 u) = item (routeData_p0 u) 0)"
proof -
  have w: "wf s" using assms by (rule reachable_wf)
  have "intervalRef (resetSimulation s) = None"
    using w by (auto simp: resetSimulation_def commit_def animation_effect_def wf_def
        split: option.splits)
  moreover have "routeData s \<noteq> [] \<longrightarrow>
      interpolatedPos (resetSimulation s) = PosRecord (lat (routeData s ! 0)) (lng (routeData s ! 0))"
    by (cases "routeData s") (simp_all add: resetSimulation_def commit_def)
  moreover have "step t = 0" if "intervalRef (togglePlay (resetSimulation s)) = Some t" for t
    using that
    by (auto simp: togglePlay_def resetSimulation_def commit_def animation_effect_def
        split: if_splits option.splits)
  moreover have "currentIndex_p0 (resetSimulation_p0 u) = 0 \<and>
      \<not> isPlaying_p0 (resetSimulation_p0 u) \<and>
      currentPosition_p0 (resetSimulation_p0 u) = item (routeData_p0 u) 0" for u
    by (simp add: resetSimulation_p0_def commit_p0_def currentPosition_p0_def
        split: option.splits)
  ultimately show ?thesis
    by (simp add: resetSimulation_def commit_def)
qed

theorem reset_restores_initial_state_witness:
  "reachable (ticks 7 (ticks 20 (run [Load three_route, TogglePlay] init))) \<and>
   currentIndex (ticks 7 (ticks 20 (run [Load three_route, TogglePlay] init))) = 1 \<and>
   resetSimulation (ticks 7 (ticks 20 (run [Load three_route, TogglePlay] init))) =
     \<lparr> routeData = three_route, currentIndex = 0,
       interpolatedPos = PosRecord 0 0, isPlaying = False,
       intervalRef = None, loadPending = False \<rparr>"
proof -
  let ?s = "ticks 7 (ticks 20 (run [Load three_route, TogglePlay] init))"
  have r: "reachable ?s" by (intro reachable_ticks reachable_run reach_init)
  have ne: "routeData ?s \<noteq> []" unfolding three_mid_segment by (simp add: three_route_def)
  have l: "loadPending (resetSimulation ?s) = False"
    unfolding three_mid_segment by (simp add: resetSimulation_def commit_def)
  have r0: "routeData ?s ! 0 = \<lparr> lat = 0, lng = 0, timestamp = 0 \<rparr>"
    unfolding three_mid_segment by (simp add: three_route_def)
  have rd: "routeData ?s = three_route" unfolding three_mid_segment by simp
  from reset_restores_initial_state [OF r] ne l r0 rd
  have "resetSimulation ?s =
     \<lparr> routeData = three_route, currentIndex = 0,
       interpolatedPos = PosRecord 0 0, isPlaying = False,
       intervalRef = None, loadPending = False \<rparr>"
    by (cases "resetSimulation ?s") simp
  moreover have "currentIndex ?s = 1" unfolding three_mid_segment by simp
  ultimately show ?thesis using r by blast
qed

section \<open>Bound on the segment index\<close>

text \<open>
  C7: on a route with at least two waypoints, \<open>currentIndex\<close> is at most
  \<open>length route - 2\<close> in every reachable state; the updater of the tick callback never
  goes past that bound, and Tick, Start/Pause and Reset keep the route and the bound.
\<close>

theorem segmentIndex_bounded:
  assumes "reachable s" and "2 \<le> length (routeData s)"
  shows "currentIndex s \<le> length (routeData s) - 2 \<and>
         advance (length (routeData s)) (currentIndex s) \<le> length (routeData s) - 2 \<and>
         (\<forall>e \<in> {Tick, TogglePlay, Reset}.
            routeData (fire e s) = routeData s \<and>
            currentIndex (fire e s) \<le> length (routeData s) - 2)"
proof -
  have bound: "currentIndex u \<le> length (routeData u) - 2"
    if "reachable u" and "2 \<le> length (routeData u)" for u
    using reachable_wf [OF that(1)] that(2) by (auto simp: wf_def)
  have "currentIndex s \<le> length (routeData s) - 2"
    using assms by (rule bound)
  moreover from this assms(2)
  have "advance (length (routeData s)) (currentIndex s) \<le> length (routeData s) - 2"
    by (auto simp: advance_def)
  moreover have "routeData (fire e s) = routeData s \<and>
      currentIndex (fire e s) \<le> length (routeData s) - 2"
    if "e \<in> {Tick, TogglePlay, Reset}" for e
  proof -
    have r: "routeData (fire e s) = routeData s" using that by (rule routeData_fire)
    have "reachable (fire e s)" using assms(1) by (rule reach_fire)
    from bound [OF this] r assms(2) show ?thesis by simp
  qed
  ultimately show ?thesis by blast
qed

theorem segmentIndex_bounded_witness:
  "reachable (run [Load scenario_route, TogglePlay, Tick] init) \<and>
   2 \<le> length (routeData (run [Load scenario_route, TogglePlay, Tick] init)) \<and>
   Tick \<in> {Tick, TogglePlay, Reset} \<and>
   currentIndex (run [Load scenario_route, TogglePlay, Tick] init)
     \<le> length (routeData (run [Load scenario_route, TogglePlay, Tick] init)) - 2 \<and>
   currentIndex (fire Tick (run [Load scenario_route, TogglePlay, Tick] init))
     \<le> length (routeData (run [Load scenario_route, TogglePlay, Tick] init)) - 2"
proof -
  let ?s = "run [Load scenario_route, TogglePlay, Tick] init"
  have r: "reachable ?s" by (rule reachable_run [OF reach_init])
  have l: "2 \<le> length (routeData ?s)"
    by (simp add: model_defs scenario_route_def)
  have t: "Tick \<in> {Tick, TogglePlay, Reset}" by simp
  from segmentIndex_bounded [OF r l] r l t show ?thesis by blast
qed

section \<open>Start\<close>

text \<open>
  C8, as amended: Start from a stopped state leaves the index, the position and the
  route unchanged and sets \<open>isPlaying\<close>; on a route with fewer than two waypoints it
  arms no interval, so that a tick changes nothing.
\<close>

theorem start_sets_isPlaying:
  assumes "\<not> isPlaying s"
  shows "isPlaying (togglePlay s) \<and>
         currentIndex (togglePlay s) = currentIndex s \<and>
         interpolatedPos (togglePlay s) = interpolatedPos s \<and>
         routeData (togglePlay s) = routeData s \<and>
         (length (routeData s) < 2 \<longrightarrow>
            intervalRef (togglePlay s) = None \<and> tick (togglePlay s) = togglePlay s)"
  using assms by (simp add: togglePlay_def commit_def animation_effect_def tick_def)

theorem start_sets_isPlaying_witness:
  "\<not> isPlaying (load [] init) \<and> length (routeData (load [] init)) < 2 \<and>
   togglePlay (load [] init) =
     \<lparr> routeData = [], currentIndex = 0,
       interpolatedPos = PosArray 17.4 78.495, isPlaying = True,
       intervalRef = None, loadPending = False \<rparr> \<and>
   tick (togglePlay (load [] init)) = togglePlay (load [] init)"
proof -
  have a: "\<not> isPlaying (load [] init)" unfolding empty_loaded by simp
  have l: "loadPending (togglePlay (load [] init)) = False"
    unfolding empty_loaded by (simp add: togglePlay_def commit_def)
  from start_sets_isPlaying [OF a] l show ?thesis
    unfolding empty_loaded by (cases "togglePlay (load [] init)") simp
qed

text \<open>
  The claim as stated fails: on the empty route, and again on the scenario route
  paused on its final waypoint, Start changes the state, because \<open>isPlaying\<close>
  becomes true.
\<close>

theorem start_not_noop_counterexample:
  "length (routeData (load [] init)) < 2 \<and> \<not> isPlaying (load [] init) \<and>
   togglePlay (load [] init) \<noteq> load [] init \<and>
   \<not> isPlaying (togglePlay (ticks 20 (togglePlay (load scenario_route init)))) \<and>
   interpolatedPos (togglePlay (ticks 20 (togglePlay (load scenario_route init))))
     = PosRecord 17.41 78.50 \<and>
   togglePlay (togglePlay (ticks 20 (togglePlay (load scenario_route init))))
     \<noteq> togglePlay (ticks 20 (togglePlay (load scenario_route init)))"
  unfolding empty_loaded scenario_paused_at_end
  by (simp add: togglePlay_def commit_def animation_effect_def)

section \<open>The position stored by the load effect\<close>

lemma interpolatedPos_fire_other:
  "e \<noteq> Tick \<Longrightarrow> e \<noteq> Reset \<Longrightarrow> \<not> loadPending s \<Longrightarrow>
   interpolatedPos (fire e s) = interpolatedPos s \<and> \<not> loadPending (fire e s)"
  by (cases e) (simp_all add: togglePlay_def commit_def)

lemma interpolatedPos_run_other:
  "Tick \<notin> set es \<Longrightarrow> Reset \<notin> set es \<Longrightarrow> \<not> loadPending s \<Longrightarrow>
   interpolatedPos (run es s) = interpolatedPos s \<and> \<not> loadPending (run es s)"
proof (induction es arbitrary: s)
  case Nil
  then show ?case by simp
next
  case (Cons e es)
  then have e: "e \<noteq> Tick" "e \<noteq> Reset" and es: "Tick \<notin> set es" "Reset \<notin> set es"
    by auto
  from interpolatedPos_fire_other [OF e Cons.prems(3)]
  have f: "interpolatedPos (fire e s) = interpolatedPos s" "\<not> loadPending (fire e s)"
    by simp_all
  from Cons.IH [OF es f(2)] f(1) show ?case by simp
qed

lemma routeData_run_loaded:
  "\<not> loadPending s \<Longrightarrow> routeData (run es s) = routeData s \<and> \<not> loadPending (run es s)"
proof (induction es arbitrary: s)
  case Nil
  then show ?case by simp
next
  case (Cons e es)
  have "routeData (fire e s) = routeData s \<and> \<not> loadPending (fire e s)"
    using Cons.prems
    by (cases e)
       (simp_all add: togglePlay_def resetSimulation_def tick_def commit_def Let_def
          split: option.splits)
  then show ?case using Cons.IH [of "fire e s"] by simp
qed

text \<open>
  C9: after the load effect stored a non-empty route, and as long as no Tick or Reset
  happened, \<open>interpolatedPos\<close> is the two-element array written by the load effect, so
  the marker is not rendered; a Reset, or a Tick of an armed interval, stores an object
  and the marker is rendered.
\<close>

theorem loaded_position_is_array:
  assumes "loadPending s" and "data \<noteq> []" and "Tick \<notin> set es" and "Reset \<notin> set es"
  shows "interpolatedPos (run es (load data s))
           = PosArray (or_default (lat (hd data)) (fst INITIAL_CENTER))
                      (or_default (lng (hd data)) (snd INITIAL_CENTER)) \<and>
         \<not> marker_rendered (run es (load data s)) \<and>
         marker_rendered (resetSimulation (run es (load data s))) \<and>
         (intervalRef (run es (load data s)) \<noteq> None \<longrightarrow>
            marker_rendered (tick (run es (load data s))))"
proof -
  let ?s1 = "load data s"
  let ?u = "run es ?s1"
  obtain w ws where d: "data = w # ws" using assms(2) by (cases data) auto
  have l1: "\<not> loadPending ?s1" by (simp add: load_def commit_def)
  have p1: "interpolatedPos ?s1 = PosArray (or_default (lat (hd data)) (fst INITIAL_CENTER))
      (or_default (lng (hd data)) (snd INITIAL_CENTER))"
    by (simp add: load_def commit_def d)
  have r1: "routeData ?s1 = data" by (simp add: load_def commit_def)
  from interpolatedPos_run_other [OF assms(3,4) l1] p1
  have pu: "interpolatedPos ?u = PosArray (or_default (lat (hd data)) (fst INITIAL_CENTER))
      (or_default (lng (hd data)) (snd INITIAL_CENTER))" by simp
  from routeData_run_loaded [OF l1] r1 have ru: "routeData ?u = w # ws"
    unfolding d by simp
  have "\<not> marker_rendered ?u" by (simp add: marker_rendered_def pu)
  moreover have "marker_rendered (resetSimulation ?u)"
    by (simp add: marker_rendered_def resetSimulation_def commit_def ru)
  moreover have "marker_rendered (tick ?u)" if "intervalRef ?u \<noteq> None"
  proof -
    from that obtain t where "intervalRef ?u = Some t" by auto
    from tick_position [OF this] show ?thesis
      by (simp add: marker_rendered_def interp_def ru)
  qed
  ultimately show ?thesis using pu by blast
qed

theorem loaded_position_is_array_witness:
  "loadPending init \<and> scenario_route \<noteq> [] \<and>
   Tick \<notin> set [TogglePlay] \<and> Reset \<notin> set [TogglePlay] \<and>
   interpolatedPos (run [TogglePlay] (load scenario_route init)) = PosArray 17.40 78.49 \<and>
   \<not> marker_rendered (run [TogglePlay] (load scenario_route init)) \<and>
   intervalRef (run [TogglePlay] (load scenario_route init)) \<noteq> None \<and>
   marker_rendered (tick (run [TogglePlay] (load scenario_route init))) \<and>
   marker_rendered (resetSimulation (run [TogglePlay] (load scenario_route init)))"
proof -
  have a: "loadPending init" by (simp add: init_def)
  have b: "scenario_route \<noteq> []" by (simp add: scenario_route_def)
  have c: "Tick \<notin> set [TogglePlay]" "Reset \<notin> set [TogglePlay]" by simp_all
  have i: "intervalRef (run [TogglePlay] (load scenario_route init)) \<noteq> None"
    using scenario_started by (simp add: init_def)
  have h: "or_default (lat (hd scenario_route)) (fst INITIAL_CENTER) = 17.40"
    "or_default (lng (hd scenario_route)) (snd INITIAL_CENTER) = 78.49"
    by (simp_all add: scenario_route_def or_default_def)
  from loaded_position_is_array [OF a b c] i a b show ?thesis
    unfolding h by simp
qed

section \<open>Monotonicity of the segment index\<close>

lemma currentIndex_fire_mono: "e \<noteq> Reset \<Longrightarrow> currentIndex s \<le> currentIndex (fire e s)"
  by (cases e)
     (auto simp: load_def togglePlay_def tick_def commit_def advance_def Let_def
           split: option.splits)

text \<open>
  C10: Start/Pause keeps \<open>currentIndex\<close>, a Tick never decreases it, Reset sets it
  to 0, and along any run of events without Reset it never decreases.
\<close>

theorem currentIndex_never_decreases:
  "currentIndex (togglePlay s) = currentIndex s \<and>
   currentIndex s \<le> currentIndex (tick s) \<and>
   currentIndex (resetSimulation s) = 0 \<and>
   (Reset \<notin> set es \<longrightarrow> currentIndex s \<le> currentIndex (run es s))"
proof -
  have "currentIndex s \<le> currentIndex (run es s)" if "Reset \<notin> set es"
    using that
  proof (induction es arbitrary: s)
    case Nil
    then show ?case by simp
  next
    case (Cons e es)
    then have "e \<noteq> Reset" and "Reset \<notin> set es" by auto
    then have "currentIndex s \<le> currentIndex (fire e s)"
      and "currentIndex (fire e s) \<le> currentIndex (run es (fire e s))"
      using Cons.IH by (simp_all add: currentIndex_fire_mono)
    then show ?case by simp
  qed
  moreover have "currentIndex (togglePlay s) = currentIndex s"
    by (simp add: togglePlay_def commit_def)
  moreover have "currentIndex s \<le> currentIndex (tick s)"
    using currentIndex_fire_mono [of Tick s] by simp
  moreover have "currentIndex (resetSimulation s) = 0"
    by (simp add: resetSimulation_def commit_def)
  ultimately show ?thesis by blast
qed

theorem currentIndex_never_decreases_witness:
  "Reset \<notin> set (replicate 20 Tick @ [TogglePlay]) \<and>
   currentIndex (run [Load three_route, TogglePlay] init) = 0 \<and>
   currentIndex (run (replicate 20 Tick @ [TogglePlay])
                  (run [Load three_route, TogglePlay] init)) = 1 \<and>
   currentIndex (run [Load three_route, TogglePlay] init)
     \<le> currentIndex (run (replicate 20 Tick @ [TogglePlay])
                       (run [Load three_route, TogglePlay] init))"
proof -
  let ?s = "run [Load three_route, TogglePlay] init"
  let ?es = "replicate 20 Tick @ [TogglePlay]"
  have n: "Reset \<notin> set ?es" by simp
  have "run ?es ?s = togglePlay (ticks 20 ?s)"
    by (simp only: run_append run_replicate_Tick run.simps fire.simps)
  then have "currentIndex (run ?es ?s) = currentIndex (ticks 20 ?s)"
    by (simp add: togglePlay_def commit_def)
  then have one: "currentIndex (run ?es ?s) = 1" by (simp only: three_segment_done)
  have zero: "currentIndex ?s = 0" unfolding three_started by simp
  from currentIndex_never_decreases [of ?s ?es] n one zero show ?thesis by blast
qed

end
